theory Spec2Isabelle
  imports Complex_Main
begin

section \<open>Tensors, errors\<close>

text \<open>
  The notebooks are glue around a tensor library: every number lives in a tensor, which
  carries its size (\<^verbatim>\<open>torch.Size([512, 784])\<close>) and its contents in row-major order.
  Floating-point numbers are idealised as reals throughout.
\<close>

record tensor =
  shape :: "nat list"
  data :: "real list"

text \<open>
  The failures of the system: the four kinds the specification names, and the Python
  exceptions the notebook code itself can raise (a missing dictionary key, a value of the
  wrong type, a division by zero).
\<close>

datatype error =
    InvalidArchitecture
  | DimensionMismatch
  | ArchitectureMismatch
  | NotFound
  | KeyError string
  | TypeError
  | ZeroDivisionError

section \<open>Layers and the feed-forward classifier\<close>

text \<open>
  Modelled from the spec: \<^verbatim>\<open>nn.Linear\<close> is library code. A layer is an affine
  transformation that owns a weight matrix of size \<open>[out_features, in_features]\<close> and a
  bias vector of size \<open>[out_features]\<close>; both are created with the given size and a
  random initialisation. The random draws are an input of the model: \<open>rnd 0 j\<close> is the
  \<open>j\<close>-th draw for the weight, \<open>rnd 1 j\<close> for the bias.
\<close>

record linear =
  in_features :: nat
  out_features :: nat
  weight :: tensor
  bias :: tensor

definition init_tensor :: "(nat \<Rightarrow> real) \<Rightarrow> nat list \<Rightarrow> tensor" where
  "init_tensor draw shp = \<lparr>shape = shp, data = map draw [0..<prod_list shp]\<rparr>"

definition Linear :: "(nat \<Rightarrow> nat \<Rightarrow> real) \<Rightarrow> nat \<Rightarrow> nat \<Rightarrow> linear" where
  "Linear rnd n_in n_out =
     \<lparr>in_features = n_in, out_features = n_out,
      weight = init_tensor (rnd 0) [n_out, n_in],
      bias = init_tensor (rnd 1) [n_out]\<rparr>"

text \<open>
  Modelled from the spec: \<^verbatim>\<open>fc_model.Network\<close> is imported by the notebook, and the
  module \<^verbatim>\<open>fc_model\<close> itself is not among the sources. Given an input dimension, an
  output dimension and an ordered list of hidden-layer widths \<open>[h\<^sub>1, \<dots>, h\<^sub>k]\<close> it
  constructs \<open>k + 1\<close> layers: input to \<open>h\<^sub>1\<close>, \<open>h\<^sub>1\<close> to \<open>h\<^sub>2\<close>, \<dots>, \<open>h\<^sub>k\<close> to output. An empty list is legal; a non-positive
  dimension fails with \<open>InvalidArchitecture\<close>. The notebook prints the model as
  \<^verbatim>\<open>hidden_layers\<close>, a list of \<^verbatim>\<open>Linear\<close>, and \<^verbatim>\<open>output\<close>, one more.
\<close>

record network =
  hidden_layers :: "linear list"
  "output" :: linear

fun make_hidden :: "(nat \<Rightarrow> nat \<Rightarrow> nat \<Rightarrow> real) \<Rightarrow> nat \<Rightarrow> nat \<Rightarrow> nat list \<Rightarrow> linear list" where
  "make_hidden rnd k n_in [] = []"
| "make_hidden rnd k n_in (h # hs) = Linear (rnd k) n_in h # make_hidden rnd (Suc k) h hs"

definition Network ::
  "(nat \<Rightarrow> nat \<Rightarrow> nat \<Rightarrow> real) \<Rightarrow> int \<Rightarrow> int \<Rightarrow> int list \<Rightarrow> error + network" where
  "Network rnd input_size output_size hidden =
     (if input_size \<le> 0 \<or> output_size \<le> 0 \<or> list_ex (\<lambda>h. h \<le> 0) hidden
      then Inl InvalidArchitecture
      else Inr \<lparr>hidden_layers = make_hidden rnd 0 (nat input_size) (map nat hidden),
                output = Linear (rnd (length hidden))
                           (last (nat input_size # map nat hidden)) (nat output_size)\<rparr>)"

subsection \<open>The forward pass\<close>

text \<open>
  Modelled from the spec: the layers' computations are library code. A batch of
  activations is a list of rows, one per example. An affine layer maps a row \<open>x\<close> to
  \<open>W x + b\<close>; the rectifier is the elementwise \<open>max(0, x)\<close>; log-softmax subtracts from
  each score the logarithm of the sum of the exponentiated scores of its row. In training
  mode dropout zeroes the activations its random mask does not keep and rescales the
  others; the fraction \<open>p\<close> and the mask (by position in the model, example and unit) are
  inputs of the pass. In inference mode dropout does nothing.
\<close>

datatype mode = Eval | Train real "nat \<Rightarrow> nat \<Rightarrow> nat \<Rightarrow> bool"

datatype module = Lin linear | ReLU | Dropout | LogSoftmax

definition row :: "tensor \<Rightarrow> nat \<Rightarrow> nat \<Rightarrow> real list" where
  "row w n i = take n (drop (i * n) (data w))"

definition dot :: "real list \<Rightarrow> real list \<Rightarrow> real" where
  "dot u v = sum_list (map2 (*) u v)"

definition affine :: "linear \<Rightarrow> real list \<Rightarrow> real list" where
  "affine l x =
     map (\<lambda>i. dot (row (weight l) (in_features l) i) x + data (bias l) ! i)
       [0..<out_features l]"

definition relu :: "real list \<Rightarrow> real list" where
  "relu x = map (\<lambda>a. max 0 a) x"

definition log_softmax :: "real list \<Rightarrow> real list" where
  "log_softmax x = map (\<lambda>a. a - ln (sum_list (map exp x))) x"

fun dropout :: "mode \<Rightarrow> nat \<Rightarrow> real list list \<Rightarrow> real list list" where
  "dropout Eval k xs = xs"
| "dropout (Train p keep) k xs =
     map (\<lambda>b. map (\<lambda>i. if keep k b i then xs ! b ! i / (1 - p) else 0) [0..<length (xs ! b)])
       [0..<length xs]"

text \<open>A batch of size \<open>[B, n]\<close>: \<open>B\<close> rows, each of width \<open>n\<close>.\<close>

definition rows_of_width :: "nat \<Rightarrow> real list list \<Rightarrow> bool" where
  "rows_of_width n xs = list_all (\<lambda>x. length x = n) xs"

text \<open>
  Modelled from the spec: applying a module to a batch is library code. An affine layer
  applied to a batch whose rows do not have its input width is the fatal
  \<open>DimensionMismatch\<close>; log-softmax runs along the class dimension (\<^verbatim>\<open>dim=1\<close>), row
  by row.
\<close>

fun apply_module :: "mode \<Rightarrow> nat \<Rightarrow> module \<Rightarrow> real list list \<Rightarrow> error + real list list" where
  "apply_module md k (Lin l) xs =
     (if list_all (\<lambda>x. length x = in_features l) xs then Inr (map (affine l) xs)
      else Inl DimensionMismatch)"
| "apply_module md k ReLU xs = Inr (map relu xs)"
| "apply_module md k Dropout xs = Inr (dropout md k xs)"
| "apply_module md k LogSoftmax xs = Inr (map log_softmax xs)"

text \<open>
  Modelled from the spec: \<^verbatim>\<open>nn.Sequential\<close> is library code. It runs the modules in
  order, each fed the output of the one before; \<open>k\<close> counts the position.
\<close>

fun sequential :: "mode \<Rightarrow> nat \<Rightarrow> module list \<Rightarrow> real list list \<Rightarrow> error + real list list" where
  "sequential md k [] xs = Inr xs"
| "sequential md k (f # fs) xs =
     (case apply_module md k f xs of
        Inl e \<Rightarrow> Inl e
      | Inr ys \<Rightarrow> sequential md (Suc k) fs ys)"

text \<open>
  The model of the Fashion-MNIST notebook:
  \<^verbatim>\<open>
  model = nn.Sequential(nn.Linear(784,128),
                       nn.ReLU(),
                       nn.Linear(128, 64),
                       nn.ReLU(),
                       nn.Linear(64, 10),
                       nn.LogSoftmax(dim=1))
  \<close>
\<close>

definition sequential_model :: "(nat \<Rightarrow> nat \<Rightarrow> nat \<Rightarrow> real) \<Rightarrow> module list" where
  "sequential_model rnd =
     [Lin (Linear (rnd 0) 784 128), ReLU,
      Lin (Linear (rnd 1) 128 64), ReLU,
      Lin (Linear (rnd 2) 64 10), LogSoftmax]"

text \<open>
  Modelled from the spec: the forward pass of \<^verbatim>\<open>fc_model.Network\<close>. Each hidden layer
  applies the rectifier to its affine output, followed by dropout; the last layer's affine
  output goes through log-softmax.
\<close>

definition modules :: "network \<Rightarrow> module list" where
  "modules m = concat (map (\<lambda>each. [Lin each, ReLU, Dropout]) (hidden_layers m)) @
               [Lin (output m), LogSoftmax]"

definition forward :: "mode \<Rightarrow> network \<Rightarrow> real list list \<Rightarrow> error + real list list" where
  "forward md m xs = sequential md 0 (modules m) xs"

subsection \<open>Valid models\<close>

text \<open>
  The invariant of the data model: every tensor holds as many numbers as its size says,
  every layer's parameters have the sizes its widths imply, consecutive layers fit (layer
  \<open>i\<close>'s output width is layer \<open>i + 1\<close>'s input width), and every width is positive.
\<close>

definition wf_tensor :: "tensor \<Rightarrow> bool" where
  "wf_tensor t = (length (data t) = prod_list (shape t))"

definition valid_linear :: "linear \<Rightarrow> bool" where
  "valid_linear l =
     (0 < in_features l \<and> 0 < out_features l \<and>
      shape (weight l) = [out_features l, in_features l] \<and> wf_tensor (weight l) \<and>
      shape (bias l) = [out_features l] \<and> wf_tensor (bias l))"

fun chained :: "nat \<Rightarrow> linear list \<Rightarrow> bool" where
  "chained n [] = True"
| "chained n (l # ls) = (in_features l = n \<and> valid_linear l \<and> chained (out_features l) ls)"

definition input_width :: "network \<Rightarrow> nat" where
  "input_width m =
     (case hidden_layers m of [] \<Rightarrow> in_features (output m) | l # _ \<Rightarrow> in_features l)"

definition output_width :: "network \<Rightarrow> nat" where
  "output_width m = out_features (output m)"

definition valid_network :: "network \<Rightarrow> bool" where
  "valid_network m =
     (chained (input_width m) (hidden_layers m) \<and> valid_linear (output m) \<and>
      in_features (output m) = last (input_width m # map out_features (hidden_layers m)))"

section \<open>Checkpoints\<close>

subsection \<open>The state dict\<close>

text \<open>
  Modelled from the spec: \<^verbatim>\<open>state_dict\<close> and \<^verbatim>\<open>load_state_dict\<close> are library code.
  The state dict maps each parameter's qualified name to its current contents, in order;
  the notebook prints its keys:
  \<^verbatim>\<open>hidden_layers.0.weight\<close>, \<^verbatim>\<open>hidden_layers.0.bias\<close>, \<dots>,
  \<^verbatim>\<open>output.weight\<close>, \<^verbatim>\<open>output.bias\<close>. \<open>str\<close> is Python's decimal
  rendering of a natural number.
\<close>

fun str :: "nat \<Rightarrow> string" where
  "str n = (if n < 10 then [''0123456789'' ! n] else str (n div 10) @ [''0123456789'' ! (n mod 10)])"

definition linear_state :: "string \<Rightarrow> linear \<Rightarrow> (string \<times> tensor) list" where
  "linear_state prefix l = [(prefix @ ''weight'', weight l), (prefix @ ''bias'', bias l)]"

fun hidden_state :: "nat \<Rightarrow> linear list \<Rightarrow> (string \<times> tensor) list" where
  "hidden_state k [] = []"
| "hidden_state k (l # ls) =
     linear_state (''hidden_layers.'' @ str k @ ''.'') l @ hidden_state (Suc k) ls"

definition state_dict :: "network \<Rightarrow> (string \<times> tensor) list" where
  "state_dict m = hidden_state 0 (hidden_layers m) @ linear_state ''output.'' (output m)"

text \<open>The sizes a state dict stores, by qualified name.\<close>

definition shapes :: "(string \<times> tensor) list \<Rightarrow> (string \<times> nat list) list" where
  "shapes sd = map (\<lambda>(name, t). (name, shape t)) sd"

text \<open>
  Modelled from the spec: \<^verbatim>\<open>load_state_dict\<close> is library code. Loading copies each
  stored value into the parameter of the same qualified name, in place. The library
  raises one error for a stored value whose size differs from the parameter's, for a
  parameter the state dict does not name and for a name the model does not have; the
  specification calls it \<open>ArchitectureMismatch\<close>. The notebook shows it:
  \<^verbatim>\<open>While copying the parameter named "hidden_layers.0.weight", whose dimensions in
  the model are torch.Size([400, 784]) and whose dimensions in the checkpoint are
  torch.Size([512, 784])\<close>.
\<close>

definition copy_param :: "(string \<times> tensor) list \<Rightarrow> string \<Rightarrow> tensor \<Rightarrow> error + tensor" where
  "copy_param sd name p =
     (case map_of sd name of
        None \<Rightarrow> Inl ArchitectureMismatch
      | Some t \<Rightarrow> if shape t = shape p then Inr (p\<lparr>data := data t\<rparr>)
                  else Inl ArchitectureMismatch)"

definition load_linear :: "(string \<times> tensor) list \<Rightarrow> string \<Rightarrow> linear \<Rightarrow> error + linear" where
  "load_linear sd prefix l =
     (case copy_param sd (prefix @ ''weight'') (weight l) of
        Inl e \<Rightarrow> Inl e
      | Inr w \<Rightarrow>
          (case copy_param sd (prefix @ ''bias'') (bias l) of
             Inl e \<Rightarrow> Inl e
           | Inr b \<Rightarrow> Inr (l\<lparr>weight := w, bias := b\<rparr>)))"

fun load_hidden :: "(string \<times> tensor) list \<Rightarrow> nat \<Rightarrow> linear list \<Rightarrow> error + linear list" where
  "load_hidden sd k [] = Inr []"
| "load_hidden sd k (l # ls) =
     (case load_linear sd (''hidden_layers.'' @ str k @ ''.'') l of
        Inl e \<Rightarrow> Inl e
      | Inr l' \<Rightarrow>
          (case load_hidden sd (Suc k) ls of
             Inl e \<Rightarrow> Inl e
           | Inr ls' \<Rightarrow> Inr (l' # ls')))"

definition load_state_dict :: "network \<Rightarrow> (string \<times> tensor) list \<Rightarrow> error + network" where
  "load_state_dict m sd =
     (if list_ex (\<lambda>name. name \<notin> set (map fst (state_dict m))) (map fst sd)
      then Inl ArchitectureMismatch
      else
        (case load_hidden sd 0 (hidden_layers m) of
           Inl e \<Rightarrow> Inl e
         | Inr hs \<Rightarrow>
             (case load_linear sd ''output.'' (output m) of
                Inl e \<Rightarrow> Inl e
              | Inr out \<Rightarrow> Inr \<lparr>hidden_layers = hs, output = out\<rparr>)))"

subsection \<open>Saving and loading\<close>

text \<open>
  Modelled from the spec: \<^verbatim>\<open>torch.save\<close> and \<^verbatim>\<open>torch.load\<close> are library code.
  The Python values the notebook pickles are integers, lists of integers, tensors, state
  dicts and dictionaries with string keys. A file system maps a path to the value
  \<^verbatim>\<open>torch.save\<close> wrote there; \<^verbatim>\<open>torch.load\<close> of a path nothing was written to
  is \<open>NotFound\<close>.
\<close>

datatype pyval =
    PyInt int
  | PyIntList "int list"
  | PyTensor tensor
  | PyStateDict "(string \<times> tensor) list"
  | PyDict "(string \<times> pyval) list"

definition torch_save :: "pyval \<Rightarrow> string \<Rightarrow> (string \<rightharpoonup> pyval) \<Rightarrow> (string \<rightharpoonup> pyval)" where
  "torch_save obj path fs = fs(path \<mapsto> obj)"

definition torch_load :: "(string \<rightharpoonup> pyval) \<Rightarrow> string \<Rightarrow> error + pyval" where
  "torch_load fs path = (case fs path of None \<Rightarrow> Inl NotFound | Some obj \<Rightarrow> Inr obj)"

text \<open>\<^verbatim>\<open>d[key]\<close>, and the type checks of the values read from a checkpoint.\<close>

fun subscript :: "pyval \<Rightarrow> string \<Rightarrow> error + pyval" where
  "subscript (PyDict d) key =
     (case map_of d key of None \<Rightarrow> Inl (KeyError key) | Some v \<Rightarrow> Inr v)"
| "subscript (PyStateDict sd) key =
     (case map_of sd key of None \<Rightarrow> Inl (KeyError key) | Some t \<Rightarrow> Inr (PyTensor t))"
| "subscript v key = Inl TypeError"

fun as_int :: "pyval \<Rightarrow> error + int" where
  "as_int (PyInt i) = Inr i"
| "as_int v = Inl TypeError"

fun as_int_list :: "pyval \<Rightarrow> error + int list" where
  "as_int_list (PyIntList hs) = Inr hs"
| "as_int_list v = Inl TypeError"

fun as_state_dict :: "pyval \<Rightarrow> error + (string \<times> tensor) list" where
  "as_state_dict (PyStateDict sd) = Inr sd"
| "as_state_dict v = Inl TypeError"

definition and_then :: "error + 'a \<Rightarrow> ('a \<Rightarrow> error + 'b) \<Rightarrow> error + 'b" where
  "and_then r f = (case r of Inl e \<Rightarrow> Inl e | Inr v \<Rightarrow> f v)"

text \<open>
  The checkpoint the notebook builds:
  \<^verbatim>\<open>
  checkpoint = {'input_size': 784,
                'output_size': 10,
                'hidden_layers': [each.out_features for each in model.hidden_layers],
                'state_dict': model.state_dict()}

  torch.save(checkpoint, 'checkpoint.pth')
  \<close>
\<close>

definition checkpoint :: "network \<Rightarrow> pyval" where
  "checkpoint model =
     PyDict [(''input_size'', PyInt 784),
             (''output_size'', PyInt 10),
             (''hidden_layers'',
                PyIntList (map (\<lambda>each. int (out_features each)) (hidden_layers model))),
             (''state_dict'', PyStateDict (state_dict model))]"

definition save :: "network \<Rightarrow> string \<Rightarrow> (string \<rightharpoonup> pyval) \<Rightarrow> (string \<rightharpoonup> pyval)" where
  "save model path fs = torch_save (checkpoint model) path fs"

text \<open>
  \<^verbatim>\<open>
  def load_checkpoint(filepath):
      checkpoint = torch.load(filepath)
      model = fc_model.Network(checkpoint['input_size'],
                               checkpoint['output_size'],
                               checkpoint['hidden_layers'])
      model.load_state_dict(checkpoint['state_dict'])

      return model
  \<close>
  The fresh model's random initialisation is \<open>rnd\<close>.
\<close>

definition load_checkpoint ::
  "(nat \<Rightarrow> nat \<Rightarrow> nat \<Rightarrow> real) \<Rightarrow> (string \<rightharpoonup> pyval) \<Rightarrow> string \<Rightarrow> error + network" where
  "load_checkpoint rnd fs filepath =
     and_then (torch_load fs filepath) (\<lambda>ckpt.
     and_then (subscript ckpt ''input_size'') (\<lambda>input_size.
     and_then (subscript ckpt ''output_size'') (\<lambda>output_size.
     and_then (subscript ckpt ''hidden_layers'') (\<lambda>hidden.
     and_then
       (and_then (as_int input_size) (\<lambda>i.
        and_then (as_int output_size) (\<lambda>out.
        and_then (as_int_list hidden) (\<lambda>hs.
        Network rnd i out hs)))) (\<lambda>model.
     and_then (subscript ckpt ''state_dict'') (\<lambda>sd.
     and_then (as_state_dict sd) (load_state_dict model)))))))"

text \<open>
  The notebook's first attempt saves the bare state dict and loads it into a model built
  with other hidden widths:
  \<^verbatim>\<open>
  torch.save(model.state_dict(), 'checkpoint.pth')
  state_dict = torch.load('checkpoint.pth')
  # Try this
  model = fc_model.Network(784, 10, [400, 200, 100])
  # This will throw an error because the tensor sizes are wrong!
  model.load_state_dict(state_dict)
  \<close>
\<close>

definition try_this ::
  "(nat \<Rightarrow> nat \<Rightarrow> nat \<Rightarrow> real) \<Rightarrow> (string \<rightharpoonup> pyval) \<Rightarrow> error + network" where
  "try_this rnd fs =
     and_then (torch_load fs ''checkpoint.pth'') (\<lambda>stored.
     and_then (Network rnd 784 10 [400, 200, 100]) (\<lambda>model.
     and_then (as_state_dict stored) (load_state_dict model)))"

subsection \<open>Concrete models\<close>

text \<open>
  The model of the notebook, \<^verbatim>\<open>fc_model.Network(784, 10, [512, 256, 128])\<close>, here with
  every parameter drawn as 0; and three small valid models, each with one hidden layer,
  whose input or output size is not the notebook's: three inputs and two classes, 784
  inputs and three classes, two inputs and ten classes.
\<close>

definition notebook_model :: network where
  "notebook_model =
     \<lparr>hidden_layers = make_hidden (\<lambda>k p j. 0) 0 784 [512, 256, 128],
      output = Linear (\<lambda>p j. 0) 128 10\<rparr>"

definition two_layer_model :: network where
  "two_layer_model =
     \<lparr>hidden_layers =
        [\<lparr>in_features = 3, out_features = 2,
          weight = \<lparr>shape = [2, 3], data = [1, 0, 0, 0, 1, 0]\<rparr>,
          bias = \<lparr>shape = [2], data = [0, 0]\<rparr>\<rparr>],
      output = \<lparr>in_features = 2, out_features = 2,
                weight = \<lparr>shape = [2, 2], data = [1, 0, 0, 1]\<rparr>,
                bias = \<lparr>shape = [2], data = [0, 0]\<rparr>\<rparr>\<rparr>"

definition three_class_model :: network where
  "three_class_model =
     \<lparr>hidden_layers = [Linear (\<lambda>p j. 0) 784 4], output = Linear (\<lambda>p j. 0) 4 3\<rparr>"

definition two_input_model :: network where
  "two_input_model =
     \<lparr>hidden_layers = [Linear (\<lambda>p j. 0) 2 3], output = Linear (\<lambda>p j. 0) 3 10\<rparr>"

section \<open>The training loop\<close>

text \<open>
  A parameter as the optimizer sees it: its value and its gradient buffer. The buffer is
  \<^verbatim>\<open>None\<close> until the first backward pass (the notebook prints
  \<^verbatim>\<open>Before backward pass: None\<close>).
\<close>

record parameter =
  pvalue :: tensor
  grad :: "tensor option"

text \<open>
  Modelled from the spec: \<^verbatim>\<open>optimizer.zero_grad()\<close> is library code. Step 2 of the
  training loop: zero all parameter gradients accumulated from the previous step. A
  gradient that was never populated stays \<^verbatim>\<open>None\<close>.
\<close>

definition zero_tensor :: "tensor \<Rightarrow> tensor" where
  "zero_tensor t = t\<lparr>data := map (\<lambda>_. 0) (data t)\<rparr>"

definition zero_grad :: "parameter list \<Rightarrow> parameter list" where
  "zero_grad ps =
     map (\<lambda>p. case grad p of None \<Rightarrow> p | Some g \<Rightarrow> p\<lparr>grad := Some (zero_tensor g)\<rparr>) ps"

text \<open>
  Modelled from the spec: \<^verbatim>\<open>loss.backward()\<close> is library code. The autodiff engine
  sums the new gradient onto the stale one (accumulate by default); an empty buffer is
  filled with the new gradient. The gradients themselves, one per parameter, are an input
  of the model (\<open>gs\<close>): they are what reverse-mode differentiation of the current batch's
  loss yields.
\<close>

definition accumulate :: "tensor option \<Rightarrow> tensor \<Rightarrow> tensor" where
  "accumulate old g =
     (case old of None \<Rightarrow> g
      | Some a \<Rightarrow> a\<lparr>data := map2 (+) (data a) (data g)\<rparr>)"

definition backward :: "tensor list \<Rightarrow> parameter list \<Rightarrow> parameter list" where
  "backward gs ps = map2 (\<lambda>p g. p\<lparr>grad := Some (accumulate (grad p) g)\<rparr>) ps gs"

text \<open>
  Modelled from the spec: \<^verbatim>\<open>optim.SGD(model.parameters(), lr=0.003)\<close> and its
  \<^verbatim>\<open>step()\<close> are library code. Step 6 of the training loop:
  \<^verbatim>\<open>param -= learning_rate * gradient\<close>, in place; a parameter without a gradient is
  skipped.
\<close>

definition sgd_update :: "real \<Rightarrow> tensor \<Rightarrow> tensor \<Rightarrow> tensor" where
  "sgd_update lr w g = w\<lparr>data := map2 (\<lambda>x d. x - lr * d) (data w) (data g)\<rparr>"

definition sgd_step :: "real \<Rightarrow> parameter list \<Rightarrow> parameter list" where
  "sgd_step lr ps =
     map (\<lambda>p. case grad p of None \<Rightarrow> p
              | Some g \<Rightarrow> p\<lparr>pvalue := sgd_update lr (pvalue p) g\<rparr>) ps"

text \<open>
  One iteration of the inner loop of both notebooks:
  \<^verbatim>\<open>
        images = images.view(images.shape[0], -1)
        optimizer.zero_grad()
        output = model.forward(images)
        loss = criterion(output, labels)
        loss.backward()
        optimizer.step()
        running_loss += loss.item()
  \<close>
  Flattening, the forward pass and the criterion together are the function \<open>lossf\<close> of
  the current parameter values and the batch; it fails when the library raises (a shape
  mismatch). \<open>gradf\<close> is the gradient of that loss with respect to each parameter. The
  iteration returns the updated parameters and \<^verbatim>\<open>loss.item()\<close>.
\<close>

definition before_step ::
  "(tensor list \<Rightarrow> 'b \<Rightarrow> tensor list) \<Rightarrow> parameter list \<Rightarrow> 'b \<Rightarrow> parameter list" where
  "before_step gradf ps b =
     (let ps1 = zero_grad ps in backward (gradf (map pvalue ps1) b) ps1)"

definition train_batch ::
  "real \<Rightarrow> (tensor list \<Rightarrow> 'b \<Rightarrow> error + real) \<Rightarrow> (tensor list \<Rightarrow> 'b \<Rightarrow> tensor list) \<Rightarrow>
   parameter list \<Rightarrow> 'b \<Rightarrow> error + (parameter list \<times> real)" where
  "train_batch lr lossf gradf ps b =
     (case lossf (map pvalue (zero_grad ps)) b of
        Inl e \<Rightarrow> Inl e
      | Inr loss \<Rightarrow> Inr (sgd_step lr (before_step gradf ps b), loss))"

text \<open>
  The inner \<^verbatim>\<open>for images, labels in trainloader\<close> loop, with the running loss as an
  accumulator.
\<close>

fun epoch_loop ::
  "real \<Rightarrow> (tensor list \<Rightarrow> 'b \<Rightarrow> error + real) \<Rightarrow> (tensor list \<Rightarrow> 'b \<Rightarrow> tensor list) \<Rightarrow>
   parameter list \<Rightarrow> real \<Rightarrow> 'b list \<Rightarrow> error + (parameter list \<times> real)" where
  "epoch_loop lr lossf gradf ps running_loss [] = Inr (ps, running_loss)"
| "epoch_loop lr lossf gradf ps running_loss (b # bs) =
     (case train_batch lr lossf gradf ps b of
        Inl e \<Rightarrow> Inl e
      | Inr (ps', loss) \<Rightarrow> epoch_loop lr lossf gradf ps' (running_loss + loss) bs)"

text \<open>
  One epoch: \<^verbatim>\<open>running_loss = 0\<close>, the inner loop, and in the loop's \<^verbatim>\<open>else\<close>
  branch (the loop has no \<^verbatim>\<open>break\<close>, so it always runs)
  \<^verbatim>\<open>print(f"Training loss: {running_loss/len(trainloader)}")\<close>. Python raises
  \<^verbatim>\<open>ZeroDivisionError\<close> when the loader has no batch.
\<close>

definition train_epoch ::
  "real \<Rightarrow> (tensor list \<Rightarrow> 'b \<Rightarrow> error + real) \<Rightarrow> (tensor list \<Rightarrow> 'b \<Rightarrow> tensor list) \<Rightarrow>
   parameter list \<Rightarrow> 'b list \<Rightarrow> error + (parameter list \<times> real)" where
  "train_epoch lr lossf gradf ps trainloader =
     (case epoch_loop lr lossf gradf ps 0 trainloader of
        Inl e \<Rightarrow> Inl e
      | Inr (ps', running_loss) \<Rightarrow>
          if length trainloader = 0 then Inl ZeroDivisionError
          else Inr (ps', running_loss / real (length trainloader)))"

text \<open>
  The outer \<^verbatim>\<open>for e in range(epochs)\<close> loop. The loader reshuffles at every epoch:
  \<open>trainloader e\<close> is the sequence of batches it yields in epoch \<open>e\<close>. The result is the
  final parameters and the list of printed training losses.
\<close>

fun train_epochs ::
  "real \<Rightarrow> (tensor list \<Rightarrow> 'b \<Rightarrow> error + real) \<Rightarrow> (tensor list \<Rightarrow> 'b \<Rightarrow> tensor list) \<Rightarrow>
   (nat \<Rightarrow> 'b list) \<Rightarrow> parameter list \<Rightarrow> real list \<Rightarrow> nat list \<Rightarrow>
   error + (parameter list \<times> real list)" where
  "train_epochs lr lossf gradf trainloader ps printed [] = Inr (ps, printed)"
| "train_epochs lr lossf gradf trainloader ps printed (e # es) =
     (case train_epoch lr lossf gradf ps (trainloader e) of
        Inl err \<Rightarrow> Inl err
      | Inr (ps', avg) \<Rightarrow> train_epochs lr lossf gradf trainloader ps' (printed @ [avg]) es)"

definition train ::
  "real \<Rightarrow> (tensor list \<Rightarrow> 'b \<Rightarrow> error + real) \<Rightarrow> (tensor list \<Rightarrow> 'b \<Rightarrow> tensor list) \<Rightarrow>
   (nat \<Rightarrow> 'b list) \<Rightarrow> nat \<Rightarrow> parameter list \<Rightarrow> error + (parameter list \<times> real list)" where
  "train lr lossf gradf trainloader epochs ps =
     train_epochs lr lossf gradf trainloader ps [] [0..<epochs]"

text \<open>
  The losses of the batches of one epoch, in order, each computed at the parameters the
  loop holds when it reaches that batch; and the parameters the epoch ends with. This is
  the reference the running-loss accumulator is compared with.
\<close>

fun batch_losses ::
  "real \<Rightarrow> (tensor list \<Rightarrow> 'b \<Rightarrow> error + real) \<Rightarrow> (tensor list \<Rightarrow> 'b \<Rightarrow> tensor list) \<Rightarrow>
   parameter list \<Rightarrow> 'b list \<Rightarrow> error + (parameter list \<times> real list)" where
  "batch_losses lr lossf gradf ps [] = Inr (ps, [])"
| "batch_losses lr lossf gradf ps (b # bs) =
     (case train_batch lr lossf gradf ps b of
        Inl e \<Rightarrow> Inl e
      | Inr (ps', loss) \<Rightarrow>
          (case batch_losses lr lossf gradf ps' bs of
             Inl e \<Rightarrow> Inl e
           | Inr (ps'', ls) \<Rightarrow> Inr (ps'', loss # ls)))"

text \<open>
  The parameters the loop holds when epoch \<open>e\<close> starts.
\<close>

fun epoch_start ::
  "real \<Rightarrow> (tensor list \<Rightarrow> 'b \<Rightarrow> error + real) \<Rightarrow> (tensor list \<Rightarrow> 'b \<Rightarrow> tensor list) \<Rightarrow>
   (nat \<Rightarrow> 'b list) \<Rightarrow> parameter list \<Rightarrow> nat \<Rightarrow> parameter list" where
  "epoch_start lr lossf gradf trainloader ps 0 = ps"
| "epoch_start lr lossf gradf trainloader ps (Suc e) =
     (case train_epoch lr lossf gradf (epoch_start lr lossf gradf trainloader ps e) (trainloader e) of
        Inl err \<Rightarrow> epoch_start lr lossf gradf trainloader ps e
      | Inr (ps', avg) \<Rightarrow> ps')"

text \<open>
  Well-formedness of the optimizer's view: a gradient has the size of its parameter. The
  autodiff engine only ever produces such gradients.
\<close>

definition like :: "tensor \<Rightarrow> tensor \<Rightarrow> bool" where
  "like t u = (shape t = shape u \<and> length (data t) = length (data u))"

definition wf_params :: "parameter list \<Rightarrow> bool" where
  "wf_params ps = list_all (\<lambda>p. case grad p of None \<Rightarrow> True | Some g \<Rightarrow> like g (pvalue p)) ps"

text \<open>
  A toy training problem for concrete runs: one scalar parameter \<open>w\<close>, a batch is one
  real \<open>x\<close>, the loss is \<open>(w - x)\<^sup>2\<close> and its gradient \<open>2 (w - x)\<close>.
\<close>

definition toy_loss :: "tensor list \<Rightarrow> real \<Rightarrow> error + real" where
  "toy_loss vals x =
     (case vals of
        [w] \<Rightarrow> (case data w of [v] \<Rightarrow> Inr ((v - x) * (v - x)) | _ \<Rightarrow> Inl DimensionMismatch)
      | _ \<Rightarrow> Inl DimensionMismatch)"

definition toy_grad :: "tensor list \<Rightarrow> real \<Rightarrow> tensor list" where
  "toy_grad vals x = map (\<lambda>w. w\<lparr>data := map (\<lambda>v. 2 * (v - x)) (data w)\<rparr>) vals"

definition toy_params :: "parameter list" where
  "toy_params = [\<lparr>pvalue = \<lparr>shape = [1], data = [0]\<rparr>, grad = None\<rparr>]"

section \<open>Properties of the classifier\<close>

subsection \<open>Shapes through the forward pass\<close>

lemma sum_list_exp_pos: "x \<noteq> [] \<Longrightarrow> 0 < sum_list (map exp (x::real list))"
proof (induction x)
  case Nil
  then show ?case by simp
next
  case (Cons a x)
  show ?case
  proof (cases "x = []")
    case True
    then show ?thesis by simp
  next
    case False
    with Cons.IH have "0 < sum_list (map exp x)" by simp
    moreover have "0 < exp a" by simp
    ultimately show ?thesis by (simp add: add_pos_pos)
  qed
qed

lemma sum_list_divide: "sum_list (map (\<lambda>a. f a / c) x) = sum_list (map f x) / (c::real)"
  by (induction x) (simp_all add: add_divide_distrib)

lemma log_softmax_sum:
  assumes "x \<noteq> []"
  shows "sum_list (map exp (log_softmax x)) = 1"
proof -
  let ?s = "sum_list (map exp x)"
  have pos: "0 < ?s" using assms by (rule sum_list_exp_pos)
  have "map exp (log_softmax x) = map (\<lambda>a. exp a / ?s) x"
    using pos by (simp add: log_softmax_def exp_diff o_def)
  then have "sum_list (map exp (log_softmax x)) = ?s / ?s"
    by (simp add: sum_list_divide)
  with pos show ?thesis by simp
qed

lemma length_affine: "length (affine l x) = out_features l"
  by (simp add: affine_def)

lemma length_relu: "length (relu x) = length x"
  by (simp add: relu_def)

lemma length_log_softmax: "length (log_softmax x) = length x"
  by (simp add: log_softmax_def)

lemma length_dropout: "length (dropout md k xs) = length xs"
  by (cases md) simp_all

lemma rows_dropout: "rows_of_width n xs \<Longrightarrow> rows_of_width n (dropout md k xs)"
  by (cases md) (auto simp: rows_of_width_def list_all_length)

lemma rows_map_affine: "rows_of_width (out_features l) (map (affine l) xs)"
  by (simp add: rows_of_width_def list_all_iff length_affine)

lemma rows_map_relu: "rows_of_width n xs \<Longrightarrow> rows_of_width n (map relu xs)"
  by (simp add: rows_of_width_def list_all_iff length_relu)

lemma sequential_append:
  "sequential md k (fs @ gs) xs =
     (case sequential md k fs xs of Inl e \<Rightarrow> Inl e | Inr ys \<Rightarrow> sequential md (k + length fs) gs ys)"
  by (induction fs arbitrary: k xs) (auto split: sum.splits)

lemma hidden_block:
  "rows_of_width (in_features l) xs \<Longrightarrow>
   sequential md k [Lin l, ReLU, Dropout] xs =
     Inr (dropout md (Suc (Suc k)) (map relu (map (affine l) xs)))"
  by (simp add: rows_of_width_def)

lemma hidden_block_shape:
  assumes "rows_of_width (in_features l) xs"
  shows "\<exists>ys. sequential md k [Lin l, ReLU, Dropout] xs = Inr ys \<and>
              length ys = length xs \<and> rows_of_width (out_features l) ys"
proof -
  let ?ys = "dropout md (Suc (Suc k)) (map relu (map (affine l) xs))"
  have "sequential md k [Lin l, ReLU, Dropout] xs = Inr ?ys"
    using assms by (rule hidden_block)
  moreover have "length ?ys = length xs"
    by (simp add: length_dropout)
  moreover have "rows_of_width (out_features l) ?ys"
    by (intro rows_dropout rows_map_relu rows_map_affine)
  ultimately show ?thesis by blast
qed

lemma in_features_Linear [simp]: "in_features (Linear r a b) = a"
  and out_features_Linear [simp]: "out_features (Linear r a b) = b"
  by (simp_all add: Linear_def)

lemma hidden_stack_shape:
  "rows_of_width n xs \<Longrightarrow>
   \<exists>ys. sequential md k (concat (map (\<lambda>each. [Lin each, ReLU, Dropout]) (make_hidden rnd j n hs))) xs = Inr ys \<and>
        length ys = length xs \<and> rows_of_width (last (n # hs)) ys"
proof (induction hs arbitrary: n xs k j)
  case Nil
  then show ?case by simp
next
  case (Cons h hs)
  let ?l = "Linear (rnd j) n h"
  from Cons.prems have "rows_of_width (in_features ?l) xs" by simp
  from hidden_block_shape[OF this, of md k] obtain ys where
    ys: "sequential md k [Lin ?l, ReLU, Dropout] xs = Inr ys"
      "length ys = length xs" "rows_of_width h ys"
    by auto
  from Cons.IH[OF ys(3), of "Suc (Suc (Suc k))" "Suc j"] obtain zs where
    zs: "sequential md (Suc (Suc (Suc k))) (concat (map (\<lambda>each. [Lin each, ReLU, Dropout]) (make_hidden rnd (Suc j) h hs))) ys = Inr zs"
      "length zs = length ys" "rows_of_width (last (h # hs)) zs"
    by auto
  have "sequential md k (concat (map (\<lambda>each. [Lin each, ReLU, Dropout]) (make_hidden rnd j n (h # hs)))) xs
        = sequential md k ([Lin ?l, ReLU, Dropout] @ concat (map (\<lambda>each. [Lin each, ReLU, Dropout]) (make_hidden rnd (Suc j) h hs))) xs"
    by simp
  also have "\<dots> = Inr zs"
    unfolding sequential_append using ys(1) zs(1) by (simp del: sequential.simps)
  finally show ?case using zs(2,3) ys(2) by simp
qed

lemma shape_init_tensor [simp]: "shape (init_tensor f shp) = shp"
  by (simp add: init_tensor_def)

lemma wf_init_tensor [simp]: "wf_tensor (init_tensor f shp)"
  by (simp add: init_tensor_def wf_tensor_def)

lemma weight_Linear_shape [simp]: "shape (weight (Linear r a b)) = [b, a]"
  and bias_Linear_shape [simp]: "shape (bias (Linear r a b)) = [b]"
  by (simp_all add: Linear_def)

lemma valid_Linear: "0 < a \<Longrightarrow> 0 < b \<Longrightarrow> valid_linear (Linear r a b)"
  by (simp add: valid_linear_def Linear_def)

lemma chained_make_hidden:
  "0 < n \<Longrightarrow> list_all (\<lambda>h. 0 < h) hs \<Longrightarrow> chained n (make_hidden rnd k n hs)"
  by (induction hs arbitrary: n k) (simp_all add: valid_Linear)

lemma out_features_make_hidden [simp]:
  "map out_features (make_hidden rnd k n hs) = hs"
  by (induction hs arbitrary: n k) simp_all

lemma length_make_hidden [simp]: "length (make_hidden rnd k n hs) = length hs"
  by (induction hs arbitrary: n k) simp_all

lemma input_width_make:
  "input_width \<lparr>hidden_layers = make_hidden rnd k n hs, output = Linear r (last (n # hs)) b\<rparr> = n"
  by (cases hs) (simp_all add: input_width_def)

lemma Network_positive:
  assumes "0 < d_in" "0 < d_out" "list_all (\<lambda>h. 0 < h) hidden"
  shows "Network rnd d_in d_out hidden =
           Inr \<lparr>hidden_layers = make_hidden rnd 0 (nat d_in) (map nat hidden),
                output = Linear (rnd (length hidden)) (last (nat d_in # map nat hidden)) (nat d_out)\<rparr>"
proof -
  have "\<not> list_ex (\<lambda>h. h \<le> 0) hidden"
    using assms(3) by (auto simp: list_all_iff list_ex_iff)
  with assms(1,2) show ?thesis by (simp add: Network_def)
qed

lemma valid_Network:
  assumes "0 < d_in" "0 < d_out" "list_all (\<lambda>h. 0 < h) hidden"
    and "Network rnd d_in d_out hidden = Inr m"
  shows "valid_network m" "input_width m = nat d_in" "output_width m = nat d_out"
    "map out_features (hidden_layers m) = map nat hidden"
proof -
  let ?hs = "map nat hidden"
  have m: "m = \<lparr>hidden_layers = make_hidden rnd 0 (nat d_in) ?hs,
                output = Linear (rnd (length hidden)) (last (nat d_in # ?hs)) (nat d_out)\<rparr>"
    using Network_positive[OF assms(1-3), of rnd] assms(4) by simp
  have pos: "list_all (\<lambda>h. 0 < h) ?hs"
    using assms(3) by (simp add: list_all_iff)
  have lastpos: "0 < last (nat d_in # ?hs)"
  proof (cases "?hs = []")
    case True
    then show ?thesis using assms(1) by simp
  next
    case False
    then have "last (nat d_in # ?hs) = last ?hs" by simp
    moreover from False have "last ?hs \<in> set ?hs" by (rule last_in_set)
    ultimately have "last (nat d_in # ?hs) \<in> set ?hs" by simp
    with pos show ?thesis by (metis list_all_iff)
  qed
  show iw: "input_width m = nat d_in"
    unfolding m by (rule input_width_make)
  show "output_width m = nat d_out"
    by (simp add: m output_width_def)
  show "map out_features (hidden_layers m) = ?hs"
    by (simp add: m)
  have "chained (nat d_in) (hidden_layers m)"
    using assms(1) pos by (simp add: m chained_make_hidden)
  moreover have "valid_linear (output m)"
    using lastpos assms(2) by (simp add: m valid_Linear)
  moreover have "in_features (output m) = last (nat d_in # map out_features (hidden_layers m))"
    by (simp add: m)
  ultimately show "valid_network m"
    using iw by (simp add: valid_network_def)
qed

subsection \<open>Log-probabilities\<close>

text \<open>
  The Fashion-MNIST notebook's own \<^verbatim>\<open>nn.Sequential\<close> model maps a batch of size
  \<open>[B, 784]\<close> to \<open>[B, 10]\<close> log-probabilities, in either mode.
\<close>

lemma sequential_model_log_probabilities:
  assumes "rows_of_width 784 xs"
  shows "\<exists>ys. sequential md 0 (sequential_model rnd) xs = Inr ys \<and>
              length ys = length xs \<and>
              list_all (\<lambda>y. length y = 10 \<and> sum_list (map exp y) = 1) ys"
proof -
  let ?l1 = "Linear (rnd 0) 784 128" and ?l2 = "Linear (rnd 1) 128 64"
    and ?l3 = "Linear (rnd 2) 64 10"
  let ?a = "map relu (map (affine ?l1) xs)"
  let ?b = "map relu (map (affine ?l2) ?a)"
  let ?ys = "map log_softmax (map (affine ?l3) ?b)"
  have a: "rows_of_width 128 ?a"
    using rows_map_relu[OF rows_map_affine[of ?l1 xs]] by simp
  have b: "rows_of_width 64 ?b"
    using rows_map_relu[OF rows_map_affine[of ?l2 ?a]] by simp
  have run: "sequential md 0 (sequential_model rnd) xs = Inr ?ys"
    using assms a b by (simp add: sequential_model_def rows_of_width_def)
  have rows: "list_all (\<lambda>y. length y = 10 \<and> sum_list (map exp y) = 1) ?ys"
    unfolding list_all_iff
  proof
    fix y assume "y \<in> set ?ys"
    then obtain x where y: "y = log_softmax (affine ?l3 x)" by auto
    have l: "length (affine ?l3 x) = 10"
      by (simp add: length_affine)
    then have "affine ?l3 x \<noteq> []" by auto
    then have "sum_list (map exp y) = 1"
      unfolding y by (rule log_softmax_sum)
    moreover have "length y = 10"
      unfolding y using l by (simp add: length_log_softmax)
    ultimately show "length y = 10 \<and> sum_list (map exp y) = 1" by simp
  qed
  from run rows show ?thesis by simp
qed

text \<open>
  Claim C3. For every architecture \<open>(D_in, D_out, hidden_sizes)\<close> of positive integers the
  model is constructed, and its forward pass on any batch of size \<open>[B, D_in]\<close>, in
  inference or in training mode, succeeds with an output of size \<open>[B, D_out]\<close> whose rows,
  exponentiated, each sum to 1 (exactly so over the reals).
\<close>

theorem forward_log_probabilities:
  assumes "0 < d_in" "0 < d_out" "list_all (\<lambda>h. 0 < h) hidden"
    and "list_all (\<lambda>x. length x = nat d_in) xs"
  shows "\<exists>m ys. Network rnd d_in d_out hidden = Inr m \<and>
                forward md m xs = Inr ys \<and>
                length ys = length xs \<and>
                list_all (\<lambda>y. length y = nat d_out \<and> sum_list (map exp y) = 1) ys"
proof -
  let ?hs = "map nat hidden"
  let ?out = "Linear (rnd (length hidden)) (last (nat d_in # ?hs)) (nat d_out)"
  let ?m = "\<lparr>hidden_layers = make_hidden rnd 0 (nat d_in) ?hs, output = ?out\<rparr>"
  have net: "Network rnd d_in d_out hidden = Inr ?m"
    using assms(1-3) by (rule Network_positive)
  have "rows_of_width (nat d_in) xs"
    using assms(4) by (simp add: rows_of_width_def)
  from hidden_stack_shape[OF this, of md 0 rnd 0 ?hs] obtain ys where
    ys: "sequential md 0 (concat (map (\<lambda>each. [Lin each, ReLU, Dropout])
           (make_hidden rnd 0 (nat d_in) ?hs))) xs = Inr ys"
      "length ys = length xs" "rows_of_width (last (nat d_in # ?hs)) ys"
    by auto
  let ?zs = "map log_softmax (map (affine ?out) ys)"
  have last2: "sequential md k [Lin ?out, LogSoftmax] ys = Inr ?zs" for k
    using ys(3) by (simp add: rows_of_width_def)
  have fwd: "forward md ?m xs = Inr ?zs"
    unfolding forward_def modules_def
    using ys(1) last2 by (simp add: sequential_append del: sequential.simps)
  have len: "length ?zs = length xs"
    using ys(2) by simp
  have rows: "list_all (\<lambda>y. length y = nat d_out \<and> sum_list (map exp y) = 1) ?zs"
    unfolding list_all_iff
  proof
    fix y assume "y \<in> set ?zs"
    then obtain x where y: "y = log_softmax (affine ?out x)" by auto
    have l: "length (affine ?out x) = nat d_out"
      by (simp add: length_affine)
    with assms(2) have "affine ?out x \<noteq> []" by auto
    then have "sum_list (map exp y) = 1"
      unfolding y by (rule log_softmax_sum)
    moreover have "length y = nat d_out"
      unfolding y using l by (simp add: length_log_softmax)
    ultimately show "length y = nat d_out \<and> sum_list (map exp y) = 1" by simp
  qed
  from net fwd len rows show ?thesis by blast
qed

theorem forward_log_probabilities_witness:
  "(0::int) < 2 \<and> (0::int) < 3 \<and> list_all (\<lambda>h. 0 < h) [4::int] \<and>
   list_all (\<lambda>x. length x = nat 2) [[1, 2], [0, - 1 :: real]] \<and>
   (\<exists>m ys. Network (\<lambda>k p j. 0) 2 3 [4] = Inr m \<and>
            forward Eval m [[1, 2], [0, - 1]] = Inr ys \<and>
            length ys = length [[1, 2], [0, - 1 :: real]] \<and>
            list_all (\<lambda>y. length y = nat 3 \<and> sum_list (map exp y) = 1) ys)"
proof -
  have h: "(0::int) < 2" "(0::int) < 3" "list_all (\<lambda>h. 0 < h) [4::int]"
    "list_all (\<lambda>x. length x = nat 2) [[1, 2], [0, - 1 :: real]]"
    by simp_all
  from forward_log_probabilities[OF h, of "\<lambda>k p j. 0" Eval] h
  show ?thesis by (intro conjI)
qed

subsection \<open>Construction\<close>

text \<open>
  Claim C8. Constructing a model with an empty list of hidden widths succeeds and gives a
  valid model that is a single affine layer from the input to the output (followed by
  log-softmax); constructing with a non-positive input size, output size or hidden width
  fails with \<open>InvalidArchitecture\<close>.
\<close>

theorem empty_hidden_list_and_invalid_dimensions:
  "(0 < d_in \<and> 0 < d_out \<longrightarrow>
      (\<exists>m. Network rnd d_in d_out [] = Inr m \<and>
           hidden_layers m = [] \<and>
           in_features (output m) = nat d_in \<and> out_features (output m) = nat d_out \<and>
           modules m = [Lin (output m), LogSoftmax] \<and>
           valid_network m)) \<and>
   (d_in \<le> 0 \<or> d_out \<le> 0 \<or> list_ex (\<lambda>h. h \<le> 0) hidden \<longrightarrow>
      Network rnd d_in d_out hidden = Inl InvalidArchitecture)"
proof (intro conjI impI)
  assume a: "0 < d_in \<and> 0 < d_out"
  let ?m = "\<lparr>hidden_layers = [], output = Linear (rnd 0) (nat d_in) (nat d_out)\<rparr>"
  have n: "Network rnd d_in d_out [] = Inr ?m"
    using a by (simp add: Network_def)
  have "valid_network ?m"
    using a valid_Network(1)[of d_in d_out "[]" rnd ?m] n by simp
  with n show "\<exists>m. Network rnd d_in d_out [] = Inr m \<and>
           hidden_layers m = [] \<and>
           in_features (output m) = nat d_in \<and> out_features (output m) = nat d_out \<and>
           modules m = [Lin (output m), LogSoftmax] \<and>
           valid_network m"
    by (simp add: modules_def)
next
  assume "d_in \<le> 0 \<or> d_out \<le> 0 \<or> list_ex (\<lambda>h. h \<le> 0) hidden"
  then show "Network rnd d_in d_out hidden = Inl InvalidArchitecture"
    by (auto simp: Network_def)
qed

theorem empty_hidden_list_and_invalid_dimensions_witness:
  "(0::int) < 784 \<and> (0::int) < 10 \<and>
   (\<exists>m. Network (\<lambda>k p j. 0) 784 10 [] = Inr m \<and>
        hidden_layers m = [] \<and>
        in_features (output m) = nat 784 \<and> out_features (output m) = nat 10 \<and>
        modules m = [Lin (output m), LogSoftmax] \<and>
        valid_network m) \<and>
   list_ex (\<lambda>h. h \<le> 0) [512, 0, 128 :: int] \<and>
   Network (\<lambda>k p j. 0) 784 10 [512, 0, 128] = Inl InvalidArchitecture \<and>
   Network (\<lambda>k p j. 0) 784 (- 10) [] = Inl InvalidArchitecture \<and>
   Network (\<lambda>k p j. 0) 0 10 [] = Inl InvalidArchitecture"
proof -
  have a: "(0::int) < 784 \<and> (0::int) < 10" by simp
  have b: "list_ex (\<lambda>h. h \<le> 0) [512, 0, 128 :: int]" by simp
  note t1 = empty_hidden_list_and_invalid_dimensions[of 784 10 "\<lambda>k p j. 0" "[512, 0, 128]"]
  note t2 = empty_hidden_list_and_invalid_dimensions[of 784 "- 10" "\<lambda>k p j. 0" "[]"]
  note t3 = empty_hidden_list_and_invalid_dimensions[of 0 10 "\<lambda>k p j. 0" "[]"]
  from t1 a have c1: "\<exists>m. Network (\<lambda>k p j. 0) 784 10 [] = Inr m \<and>
        hidden_layers m = [] \<and>
        in_features (output m) = nat 784 \<and> out_features (output m) = nat 10 \<and>
        modules m = [Lin (output m), LogSoftmax] \<and>
        valid_network m" by blast
  from t1 b have c2: "Network (\<lambda>k p j. 0) 784 10 [512, 0, 128] = Inl InvalidArchitecture" by blast
  from t2 have c3: "Network (\<lambda>k p j. 0) 784 (- 10) [] = Inl InvalidArchitecture" by simp
  from t3 have c4: "Network (\<lambda>k p j. 0) 0 10 [] = Inl InvalidArchitecture" by simp
  from a b c1 c2 c3 c4 show ?thesis by simp
qed

section \<open>Properties of checkpoints\<close>

subsection \<open>Qualified names\<close>

declare str.simps [simp del]

lemma str_nonempty: "str n \<noteq> []"
  by (subst str.simps) simp

lemma digit_inj:
  assumes "a < 10" "b < 10" "''0123456789'' ! a = ''0123456789'' ! b"
  shows "a = b"
proof -
  have d: "distinct ''0123456789''" by simp
  have l: "length ''0123456789'' = 10" by simp
  from d assms l show ?thesis by (simp add: nth_eq_iff_index_eq)
qed

lemma str_inj: "str n = str m \<Longrightarrow> n = m"
proof (induction n arbitrary: m rule: str.induct)
  case (1 n)
  show ?case
  proof (cases "n < 10")
    case n: True
    show ?thesis
    proof (cases "m < 10")
      case True
      with n "1.prems" show ?thesis
        by (subst (asm) str.simps, subst (asm) (2) str.simps) (auto dest: digit_inj)
    next
      case False
      then have "str m = str (m div 10) @ [''0123456789'' ! (m mod 10)]"
        by (subst str.simps) simp
      moreover have "str n = [''0123456789'' ! n]"
        using n by (subst str.simps) simp
      ultimately show ?thesis using "1.prems" str_nonempty[of "m div 10"] by simp
    qed
  next
    case n: False
    then have sn: "str n = str (n div 10) @ [''0123456789'' ! (n mod 10)]"
      by (subst str.simps) simp
    show ?thesis
    proof (cases "m < 10")
      case True
      then have "str m = [''0123456789'' ! m]"
        by (subst str.simps) simp
      with sn show ?thesis using "1.prems" str_nonempty[of "n div 10"] by simp
    next
      case False
      then have sm: "str m = str (m div 10) @ [''0123456789'' ! (m mod 10)]"
        by (subst str.simps) simp
      from "1.prems" sn sm have e: "str (n div 10) = str (m div 10)"
        and d: "''0123456789'' ! (n mod 10) = ''0123456789'' ! (m mod 10)"
        by simp_all
      from "1.IH"[OF n e] have q: "n div 10 = m div 10" .
      have "n mod 10 = m mod 10"
        by (rule digit_inj[OF _ _ d]) simp_all
      with q show ?thesis by (metis div_mult_mod_eq)
    qed
  qed
qed

lemma str_eq_iff [simp]: "str n = str m \<longleftrightarrow> n = m"
  using str_inj by blast

lemma str_0: "str 0 = ''0''" and str_1: "str 1 = ''1''" and str_2: "str 2 = ''2''"
  and str_Suc_0: "str (Suc 0) = ''1''" and str_Suc_Suc_0: "str (Suc (Suc 0)) = ''2''"
  by (subst str.simps, simp)+

lemma weight_not_bias: "xs @ ''weight'' \<noteq> ys @ ''bias''"
proof
  assume "xs @ ''weight'' = ys @ ''bias''"
  then have "last (xs @ ''weight'') = last (ys @ ''bias'')" by simp
  then show False by simp
qed

lemma bias_not_weight: "xs @ ''bias'' \<noteq> ys @ ''weight''"
  using weight_not_bias[of ys xs] by auto

lemma hidden_prefix_eq [simp]:
  "(''hidden_layers.'' @ str k @ ''.'') = (''hidden_layers.'' @ str j @ ''.'') \<longleftrightarrow> k = j"
  by simp

lemma hidden_name_eq:
  "(''hidden_layers.'' @ str k @ ''.'') @ ''weight'' = (''hidden_layers.'' @ str j @ ''.'') @ ''weight'' \<longleftrightarrow> k = j"
  "(''hidden_layers.'' @ str k @ ''.'') @ ''bias'' = (''hidden_layers.'' @ str j @ ''.'') @ ''bias'' \<longleftrightarrow> k = j"
  by simp_all

lemma hidden_name_neq:
  "(''hidden_layers.'' @ str k @ ''.'') @ ''weight'' \<noteq> (''hidden_layers.'' @ str j @ ''.'') @ ''bias''"
  "(''hidden_layers.'' @ str k @ ''.'') @ ''bias'' \<noteq> (''hidden_layers.'' @ str j @ ''.'') @ ''weight''"
  by (rule weight_not_bias, rule bias_not_weight)

lemma map_of_hidden_state_output:
  "map_of (hidden_state k ls) (''output.'' @ r) = None"
  by (induction ls arbitrary: k) (simp_all add: linear_state_def)

lemma map_of_hidden_state:
  "j < length ls \<Longrightarrow>
   map_of (hidden_state k ls) ((''hidden_layers.'' @ str (k + j) @ ''.'') @ ''weight'') =
     Some (weight (ls ! j)) \<and>
   map_of (hidden_state k ls) ((''hidden_layers.'' @ str (k + j) @ ''.'') @ ''bias'') =
     Some (bias (ls ! j))"
proof (induction ls arbitrary: k j)
  case Nil
  then show ?case by simp
next
  case (Cons l ls)
  show ?case
  proof (cases j)
    case 0
    then show ?thesis
      using hidden_name_neq(2)[of k k]
      by (simp add: linear_state_def del: append_assoc)
  next
    case (Suc j')
    with Cons.prems have j': "j' < length ls" by simp
    have ne: "k \<noteq> k + j" using Suc by simp
    have kj: "k + j = Suc k + j'" using Suc by simp
    from Cons.IH[OF j', of "Suc k"] show ?thesis
      unfolding kj[symmetric] using ne Suc
      by (simp add: linear_state_def hidden_name_eq hidden_name_neq del: append_assoc)
  qed
qed

subsection \<open>Loading a state dict into a model of the same architecture\<close>

lemma copy_param_same:
  "map_of sd name = Some t \<Longrightarrow> shape t = shape p \<Longrightarrow> copy_param sd name p = Inr t"
  by (simp add: copy_param_def)

lemma copy_param_mismatch:
  "map_of sd name = Some t \<Longrightarrow> shape t \<noteq> shape p \<Longrightarrow>
   copy_param sd name p = Inl ArchitectureMismatch"
  by (simp add: copy_param_def)

lemma load_linear_same:
  assumes "map_of sd (prefix @ ''weight'') = Some (weight l)"
    and "map_of sd (prefix @ ''bias'') = Some (bias l)"
    and "valid_linear l"
  shows "load_linear sd prefix (Linear r (in_features l) (out_features l)) = Inr l"
proof -
  let ?f = "Linear r (in_features l) (out_features l)"
  have w: "copy_param sd (prefix @ ''weight'') (weight ?f) = Inr (weight l)"
    using assms(1,3) by (intro copy_param_same) (simp_all add: valid_linear_def)
  have b: "copy_param sd (prefix @ ''bias'') (bias ?f) = Inr (bias l)"
    using assms(2,3) by (intro copy_param_same) (simp_all add: valid_linear_def)
  have "?f\<lparr>weight := weight l, bias := bias l\<rparr> = l"
    by (simp add: Linear_def)
  then show ?thesis
    by (simp add: load_linear_def w b)
qed

lemma load_hidden_same:
  assumes "chained n ls"
    and "\<And>j. j < length ls \<Longrightarrow>
           map_of sd ((''hidden_layers.'' @ str (k + j) @ ''.'') @ ''weight'') = Some (weight (ls ! j)) \<and>
           map_of sd ((''hidden_layers.'' @ str (k + j) @ ''.'') @ ''bias'') = Some (bias (ls ! j))"
  shows "load_hidden sd k (make_hidden rnd k n (map out_features ls)) = Inr ls"
  using assms
proof (induction ls arbitrary: k n)
  case Nil
  then show ?case by simp
next
  case (Cons l ls)
  from Cons.prems(1) have n: "in_features l = n" and v: "valid_linear l"
    and c: "chained (out_features l) ls" by simp_all
  from Cons.prems(2)[of 0] have
    w0: "map_of sd ((''hidden_layers.'' @ str k @ ''.'') @ ''weight'') = Some (weight l)" and
    b0: "map_of sd ((''hidden_layers.'' @ str k @ ''.'') @ ''bias'') = Some (bias l)"
    by simp_all
  have hd: "load_linear sd (''hidden_layers.'' @ str k @ ''.'') (Linear (rnd k) n (out_features l)) = Inr l"
    using load_linear_same[OF w0 b0 v, of "rnd k"] n by simp
  have "\<And>j. j < length ls \<Longrightarrow>
           map_of sd ((''hidden_layers.'' @ str (Suc k + j) @ ''.'') @ ''weight'') = Some (weight (ls ! j)) \<and>
           map_of sd ((''hidden_layers.'' @ str (Suc k + j) @ ''.'') @ ''bias'') = Some (bias (ls ! j))"
  proof -
    fix j assume "j < length ls"
    then have "Suc j < length (l # ls)" by simp
    from Cons.prems(2)[OF this] show "map_of sd ((''hidden_layers.'' @ str (Suc k + j) @ ''.'') @ ''weight'') = Some (weight (ls ! j)) \<and>
           map_of sd ((''hidden_layers.'' @ str (Suc k + j) @ ''.'') @ ''bias'') = Some (bias (ls ! j))"
      by simp
  qed
  from Cons.IH[OF c this] have tl:
    "load_hidden sd (Suc k) (make_hidden rnd (Suc k) (out_features l) (map out_features ls)) = Inr ls" .
  show ?case
    using hd tl by (simp del: append_assoc)
qed

lemma keys_linear_state: "map fst (linear_state prefix l) = map fst (linear_state prefix l')"
  by (simp add: linear_state_def)

lemma keys_hidden_state:
  "length ls = length ls' \<Longrightarrow> map fst (hidden_state k ls) = map fst (hidden_state k ls')"
proof (induction ls ls' arbitrary: k rule: list_induct2)
  case Nil
  show ?case by simp
next
  case (Cons x xs y ys)
  have "map fst (hidden_state k (x # xs)) =
          map fst (linear_state (''hidden_layers.'' @ str k @ ''.'') x) @
          map fst (hidden_state (Suc k) xs)"
    by simp
  also have "\<dots> = map fst (linear_state (''hidden_layers.'' @ str k @ ''.'') y) @
          map fst (hidden_state (Suc k) ys)"
    using Cons.IH[of "Suc k"] keys_linear_state[of "''hidden_layers.'' @ str k @ ''.''" x y]
    by (simp only:)
  also have "\<dots> = map fst (hidden_state k (y # ys))"
    by simp
  finally show ?case .
qed

lemma keys_state_dict:
  "length (hidden_layers m) = length (hidden_layers m') \<Longrightarrow>
   map fst (state_dict m) = map fst (state_dict m')"
  using keys_hidden_state[of "hidden_layers m" "hidden_layers m'" 0]
  by (simp add: state_dict_def linear_state_def)

lemma map_of_state_dict_hidden:
  "j < length (hidden_layers m) \<Longrightarrow>
   map_of (state_dict m) ((''hidden_layers.'' @ str j @ ''.'') @ ''weight'') =
     Some (weight (hidden_layers m ! j)) \<and>
   map_of (state_dict m) ((''hidden_layers.'' @ str j @ ''.'') @ ''bias'') =
     Some (bias (hidden_layers m ! j))"
  using map_of_hidden_state[of j "hidden_layers m" 0]
  by (simp add: state_dict_def map_add_def del: append_assoc)

lemma map_of_state_dict_output:
  "map_of (state_dict m) (''output.'' @ ''weight'') = Some (weight (output m))"
  "map_of (state_dict m) (''output.'' @ ''bias'') = Some (bias (output m))"
  using map_of_hidden_state_output[of 0 "hidden_layers m" "''weight''"]
    map_of_hidden_state_output[of 0 "hidden_layers m" "''bias''"]
  by (simp_all add: state_dict_def map_add_def linear_state_def)

lemma network_eq: "m = \<lparr>hidden_layers = hidden_layers m, output = output m\<rparr>"
  by simp

lemma load_state_dict_same:
  assumes "valid_network m"
  shows "load_state_dict
           \<lparr>hidden_layers = make_hidden rnd 0 (input_width m) (map out_features (hidden_layers m)),
            output = Linear r (in_features (output m)) (out_features (output m))\<rparr>
           (state_dict m) = Inr m"
proof -
  let ?fresh = "\<lparr>hidden_layers = make_hidden rnd 0 (input_width m) (map out_features (hidden_layers m)),
            output = Linear r (in_features (output m)) (out_features (output m))\<rparr>"
  from assms have c: "chained (input_width m) (hidden_layers m)" and v: "valid_linear (output m)"
    by (simp_all add: valid_network_def)
  have keys: "map fst (state_dict ?fresh) = map fst (state_dict m)"
    by (rule keys_state_dict) simp
  have nounexp: "\<not> list_ex (\<lambda>name. name \<notin> set (map fst (state_dict ?fresh))) (map fst (state_dict m))"
    unfolding keys by (simp add: list_ex_iff)
  have h: "load_hidden (state_dict m) 0 (hidden_layers ?fresh) = Inr (hidden_layers m)"
    using load_hidden_same[OF c, of "state_dict m" 0 rnd] map_of_state_dict_hidden[of _ m]
    by simp
  have out: "load_linear (state_dict m) ''output.'' (output ?fresh) = Inr (output m)"
    using load_linear_same[OF map_of_state_dict_output v, of r] by simp
  show ?thesis
    unfolding load_state_dict_def using nounexp h out by simp
qed

lemma chained_positive: "chained n ls \<Longrightarrow> list_all (\<lambda>l. 0 < out_features l) ls"
  by (induction ls arbitrary: n) (auto simp: valid_linear_def)

lemma input_width_positive: "valid_network m \<Longrightarrow> 0 < input_width m"
  by (cases "hidden_layers m") (auto simp: valid_network_def input_width_def valid_linear_def)

lemma Network_of_metadata:
  assumes "valid_network m"
  shows "Network rnd (int (input_width m)) (int (output_width m))
           (map (\<lambda>each. int (out_features each)) (hidden_layers m)) =
         Inr \<lparr>hidden_layers = make_hidden rnd 0 (input_width m) (map out_features (hidden_layers m)),
              output = Linear (rnd (length (hidden_layers m)))
                         (in_features (output m)) (out_features (output m))\<rparr>"
proof -
  from assms have c: "chained (input_width m) (hidden_layers m)"
    and v: "valid_linear (output m)"
    and l: "in_features (output m) = last (input_width m # map out_features (hidden_layers m))"
    by (simp_all add: valid_network_def)
  have p: "list_all (\<lambda>h. 0 < h) (map (\<lambda>each. int (out_features each)) (hidden_layers m))"
    using chained_positive[OF c] by (simp add: list_all_iff)
  have i: "0 < int (input_width m)"
    using input_width_positive[OF assms] by simp
  have out: "0 < int (output_width m)"
    using v by (simp add: valid_linear_def output_width_def)
  have n: "map nat (map (\<lambda>each. int (out_features each)) (hidden_layers m)) =
             map out_features (hidden_layers m)"
    by (simp add: o_def)
  show ?thesis
    unfolding Network_positive[OF i out p] n using l by (simp add: output_width_def)
qed

lemma subscript_checkpoint:
  "subscript (checkpoint m) ''input_size'' = Inr (PyInt 784)"
  "subscript (checkpoint m) ''output_size'' = Inr (PyInt 10)"
  "subscript (checkpoint m) ''hidden_layers'' =
     Inr (PyIntList (map (\<lambda>each. int (out_features each)) (hidden_layers m)))"
  "subscript (checkpoint m) ''state_dict'' = Inr (PyStateDict (state_dict m))"
  by (simp_all add: checkpoint_def)

lemma torch_load_save: "torch_load (torch_save obj path fs) path = Inr obj"
  by (simp add: torch_load_def torch_save_def)

lemma load_checkpoint_save:
  "load_checkpoint rnd (save m path fs) path =
     and_then (Network rnd 784 10 (map (\<lambda>each. int (out_features each)) (hidden_layers m)))
       (\<lambda>model. load_state_dict model (state_dict m))"
  by (simp add: load_checkpoint_def save_def torch_load_save and_then_def subscript_checkpoint
        split: sum.splits)

lemma load_after_save:
  assumes "valid_network m" "input_width m = 784" "output_width m = 10"
  shows "load_checkpoint rnd (save m path fs) path = Inr m"
proof -
  from Network_of_metadata[OF assms(1), of rnd] assms(2,3)
  have "Network rnd 784 10 (map (\<lambda>each. int (out_features each)) (hidden_layers m)) =
         Inr \<lparr>hidden_layers = make_hidden rnd 0 (input_width m) (map out_features (hidden_layers m)),
              output = Linear (rnd (length (hidden_layers m)))
                         (in_features (output m)) (out_features (output m))\<rparr>"
    by simp
  then show ?thesis
    unfolding load_checkpoint_save
    by (simp add: and_then_def load_state_dict_same[OF assms(1)])
qed

lemma Network_notebook_model:
  "Network (\<lambda>k p j. 0) 784 10 [512, 256, 128] = Inr notebook_model"
  by (simp add: Network_def notebook_model_def)

lemma valid_notebook_model:
  "valid_network notebook_model" "input_width notebook_model = 784"
  "output_width notebook_model = 10"
  "map out_features (hidden_layers notebook_model) = [512, 256, 128]"
  using valid_Network[OF _ _ _ Network_notebook_model] by simp_all

lemmas valid_defs = valid_network_def input_width_def output_width_def

lemmas load_defs = load_checkpoint_save and_then_def Network_def load_state_dict_def
  state_dict_def linear_state_def load_linear_def copy_param_def str_0

lemma load_hidden_mismatch:
  assumes "map_of sd ((''hidden_layers.'' @ str k @ ''.'') @ ''weight'') = Some t"
    and "shape t \<noteq> shape (weight l)"
  shows "load_hidden sd k (l # ls) = Inl ArchitectureMismatch"
  using assms by (simp add: load_linear_def copy_param_mismatch del: append_assoc)

lemma shapes_hidden_state:
  "chained n ls \<Longrightarrow>
   shapes (hidden_state k (make_hidden rnd k n (map out_features ls))) = shapes (hidden_state k ls)"
proof (induction ls arbitrary: k n)
  case Nil
  show ?case by simp
next
  case (Cons l ls)
  from Cons.prems have n: "in_features l = n" and v: "valid_linear l"
    and c: "chained (out_features l) ls" by simp_all
  have "shapes (linear_state (''hidden_layers.'' @ str k @ ''.'') (Linear (rnd k) n (out_features l))) =
        shapes (linear_state (''hidden_layers.'' @ str k @ ''.'') l)"
    using n v by (simp add: shapes_def linear_state_def valid_linear_def)
  with Cons.IH[OF c, of "Suc k"] show ?case
    by (simp add: shapes_def)
qed

lemma shapes_state_dict:
  assumes "valid_network m"
  shows "shapes (state_dict
           \<lparr>hidden_layers = make_hidden rnd 0 (input_width m) (map out_features (hidden_layers m)),
            output = Linear r (in_features (output m)) (out_features (output m))\<rparr>) =
         shapes (state_dict m)"
proof -
  from assms have c: "chained (input_width m) (hidden_layers m)" and v: "valid_linear (output m)"
    by (simp_all add: valid_network_def)
  have "shapes (linear_state ''output.'' (Linear r (in_features (output m)) (out_features (output m)))) =
        shapes (linear_state ''output.'' (output m))"
    using v by (simp add: shapes_def linear_state_def valid_linear_def)
  with shapes_hidden_state[OF c, of 0 rnd] show ?thesis
    by (simp add: shapes_def state_dict_def)
qed

lemma length_hidden_state: "length (hidden_state k ls) = 2 * length ls"
  by (induction ls arbitrary: k) (simp_all add: linear_state_def)

lemma length_state_dict: "length (state_dict m) = 2 * length (hidden_layers m) + 2"
  by (simp add: state_dict_def length_hidden_state linear_state_def)

subsection \<open>Round trip\<close>

text \<open>
  Claim C1, as amended. The notebook's checkpoint records the input size 784 and the
  output size 10 whatever the model, so the round trip holds for the models of that input
  and output size: for every valid model with 784 inputs and 10 classes, loading the
  checkpoint saved from it yields a model with the same parameters, whose forward output
  on any batch, in any mode, is the original model's.
\<close>

theorem checkpoint_round_trip:
  assumes "valid_network m" "input_width m = 784" "output_width m = 10"
  shows "\<exists>m'. load_checkpoint rnd (save m path fs) path = Inr m' \<and>
              state_dict m' = state_dict m \<and>
              forward md m' xs = forward md m xs"
proof -
  have "load_checkpoint rnd (save m path fs) path = Inr m"
    using assms by (rule load_after_save)
  moreover have "state_dict m = state_dict m" and "forward md m xs = forward md m xs"
    by (rule refl)+
  ultimately show ?thesis by blast
qed

theorem checkpoint_round_trip_witness:
  "valid_network notebook_model \<and> input_width notebook_model = 784 \<and>
   output_width notebook_model = 10 \<and>
   (\<exists>m'. load_checkpoint (\<lambda>k p j. 1) (save notebook_model ''checkpoint.pth'' Map.empty)
            ''checkpoint.pth'' = Inr m' \<and>
         state_dict m' = state_dict notebook_model \<and>
         forward Eval m' [replicate 784 1] = forward Eval notebook_model [replicate 784 1])"
  using checkpoint_round_trip[OF valid_notebook_model(1-3),
      of "\<lambda>k p j. 1" "''checkpoint.pth''" Map.empty Eval "[replicate 784 1]"]
    valid_notebook_model(1-3)
  by (intro conjI)

text \<open>
  The claim as stated, for every valid model, fails: the checkpoint of a valid model with
  three inputs and two classes describes a model with 784 inputs and 10 classes, and
  loading it raises \<open>ArchitectureMismatch\<close> instead of producing a model.
\<close>

theorem checkpoint_round_trip_counterexample:
  "valid_network two_layer_model \<and>
   input_width two_layer_model = 3 \<and> output_width two_layer_model = 2 \<and>
   load_checkpoint (\<lambda>k p j. 0) (save two_layer_model ''checkpoint.pth'' Map.empty)
     ''checkpoint.pth'' = Inl ArchitectureMismatch"
proof -
  have "valid_network two_layer_model"
    by (simp add: valid_defs valid_linear_def wf_tensor_def two_layer_model_def)
  moreover have "input_width two_layer_model = 3" and "output_width two_layer_model = 2"
    by (simp_all add: valid_defs two_layer_model_def)
  moreover have "load_checkpoint (\<lambda>k p j. 0) (save two_layer_model ''checkpoint.pth'' Map.empty)
     ''checkpoint.pth'' = Inl ArchitectureMismatch"
    by (simp add: load_defs two_layer_model_def)
  ultimately show ?thesis by (intro conjI)
qed

subsection \<open>Mismatched skeleton against the documented load path\<close>

text \<open>
  Claim C2. Take any valid model with 784 inputs, hidden widths \<open>[512, 256, 128]\<close> and 10
  classes. Loading its saved state dict into a model constructed with the hard-coded
  hidden widths \<open>[400, 200, 100]\<close> fails with \<open>ArchitectureMismatch\<close>; loading its
  checkpoint through \<^verbatim>\<open>load_checkpoint\<close>, which reads the stored architecture first,
  succeeds and returns the model, hidden widths \<open>[512, 256, 128]\<close>.
\<close>

theorem mismatched_skeleton_fails_documented_load_succeeds:
  assumes "valid_network m" "input_width m = 784" "output_width m = 10"
    and "map out_features (hidden_layers m) = [512, 256, 128]"
  shows "try_this rnd (torch_save (PyStateDict (state_dict m)) ''checkpoint.pth'' fs) =
           Inl ArchitectureMismatch \<and>
         load_checkpoint rnd (save m ''checkpoint.pth'' fs) ''checkpoint.pth'' = Inr m \<and>
         map out_features (hidden_layers m) = [512, 256, 128]"
proof -
  from assms(4) obtain l1 l2 l3 where hs: "hidden_layers m = [l1, l2, l3]"
    and o1: "out_features l1 = 512"
    by (auto simp: map_eq_Cons_conv)
  from assms(1,2) hs have "in_features l1 = 784" and "valid_linear l1"
    by (simp_all add: valid_network_def input_width_def)
  with o1 have sh: "shape (weight l1) = [512, 784]"
    by (simp add: valid_linear_def)
  let ?sk = "\<lparr>hidden_layers = make_hidden rnd 0 784 [400, 200, 100],
              output = Linear (rnd 3) 100 10\<rparr>"
  have net: "Network rnd 784 10 [400, 200, 100] = Inr ?sk"
    by (simp add: Network_def numeral_3_eq_3)
  have keys: "map fst (state_dict ?sk) = map fst (state_dict m)"
    by (rule keys_state_dict) (simp add: hs)
  have nounexp: "\<not> list_ex (\<lambda>name. name \<notin> set (map fst (state_dict ?sk))) (map fst (state_dict m))"
    unfolding keys by (simp add: list_ex_iff)
  have look: "map_of (state_dict m) ((''hidden_layers.'' @ str 0 @ ''.'') @ ''weight'') = Some (weight l1)"
    using map_of_state_dict_hidden[of 0 m] hs by simp
  have "load_hidden (state_dict m) 0 (hidden_layers ?sk) = Inl ArchitectureMismatch"
    using load_hidden_mismatch[OF look, of "Linear (rnd 0) 784 400"] sh by simp
  with nounexp have "load_state_dict ?sk (state_dict m) = Inl ArchitectureMismatch"
    by (simp add: load_state_dict_def)
  then have a: "try_this rnd (torch_save (PyStateDict (state_dict m)) ''checkpoint.pth'' fs) =
           Inl ArchitectureMismatch"
    by (simp add: try_this_def torch_load_save and_then_def net)
  have b: "load_checkpoint rnd (save m ''checkpoint.pth'' fs) ''checkpoint.pth'' = Inr m"
    using assms(1-3) by (rule load_after_save)
  from a b assms(4) show ?thesis by simp
qed

theorem mismatched_skeleton_fails_documented_load_succeeds_witness:
  "valid_network notebook_model \<and> input_width notebook_model = 784 \<and>
   output_width notebook_model = 10 \<and>
   Network (\<lambda>k p j. 0) 784 10 [512, 256, 128] = Inr notebook_model \<and>
   try_this (\<lambda>k p j. 1)
     (torch_save (PyStateDict (state_dict notebook_model)) ''checkpoint.pth'' Map.empty) =
     Inl ArchitectureMismatch \<and>
   load_checkpoint (\<lambda>k p j. 1) (save notebook_model ''checkpoint.pth'' Map.empty)
     ''checkpoint.pth'' = Inr notebook_model \<and>
   map out_features (hidden_layers notebook_model) = [512, 256, 128]"
  using mismatched_skeleton_fails_documented_load_succeeds[OF valid_notebook_model,
      of "\<lambda>k p j. 1" Map.empty]
    valid_notebook_model(1-3) Network_notebook_model
  by (intro conjI) simp_all

subsection \<open>The entries of a checkpoint\<close>

text \<open>
  Claim C7, as amended. Every checkpoint is a dictionary of exactly four entries, in this
  order: \<^verbatim>\<open>input_size\<close>, the integer 784; \<^verbatim>\<open>output_size\<close>, the integer 10;
  \<^verbatim>\<open>hidden_layers\<close>, the list of the hidden layers' output widths; and
  \<^verbatim>\<open>state_dict\<close>, which maps the qualified name of each parameter (two per layer) to
  its current contents. For a valid model with 784 inputs and 10 classes this is enough
  for \<^verbatim>\<open>load_checkpoint\<close> to rebuild the model from the file alone.
\<close>

theorem checkpoint_has_four_entries:
  "\<exists>d. checkpoint m = PyDict d \<and>
       map fst d = [''input_size'', ''output_size'', ''hidden_layers'', ''state_dict''] \<and>
       map_of d ''input_size'' = Some (PyInt 784) \<and>
       map_of d ''output_size'' = Some (PyInt 10) \<and>
       map_of d ''hidden_layers'' =
         Some (PyIntList (map (\<lambda>each. int (out_features each)) (hidden_layers m))) \<and>
       map_of d ''state_dict'' = Some (PyStateDict (state_dict m)) \<and>
       length (state_dict m) = 2 * length (hidden_layers m) + 2 \<and>
       (\<forall>j<length (hidden_layers m).
          map_of (state_dict m) (''hidden_layers.'' @ str j @ ''.weight'') =
            Some (weight (hidden_layers m ! j)) \<and>
          map_of (state_dict m) (''hidden_layers.'' @ str j @ ''.bias'') =
            Some (bias (hidden_layers m ! j))) \<and>
       map_of (state_dict m) ''output.weight'' = Some (weight (output m)) \<and>
       map_of (state_dict m) ''output.bias'' = Some (bias (output m)) \<and>
       (valid_network m \<and> input_width m = 784 \<and> output_width m = 10 \<longrightarrow>
          load_checkpoint rnd (save m path fs) path = Inr m)"
proof -
  let ?d = "[(''input_size'', PyInt 784), (''output_size'', PyInt 10),
             (''hidden_layers'',
                PyIntList (map (\<lambda>each. int (out_features each)) (hidden_layers m))),
             (''state_dict'', PyStateDict (state_dict m))]"
  have d: "checkpoint m = PyDict ?d" by (simp add: checkpoint_def)
  have keys: "map fst ?d = [''input_size'', ''output_size'', ''hidden_layers'', ''state_dict'']"
    by simp
  have e1: "map_of ?d ''input_size'' = Some (PyInt 784)"
    and e2: "map_of ?d ''output_size'' = Some (PyInt 10)"
    and e3: "map_of ?d ''hidden_layers'' =
         Some (PyIntList (map (\<lambda>each. int (out_features each)) (hidden_layers m)))"
    and e4: "map_of ?d ''state_dict'' = Some (PyStateDict (state_dict m))"
    by simp_all
  have h: "\<forall>j<length (hidden_layers m).
          map_of (state_dict m) (''hidden_layers.'' @ str j @ ''.weight'') =
            Some (weight (hidden_layers m ! j)) \<and>
          map_of (state_dict m) (''hidden_layers.'' @ str j @ ''.bias'') =
            Some (bias (hidden_layers m ! j))"
    using map_of_state_dict_hidden[of _ m] by simp
  have o: "map_of (state_dict m) ''output.weight'' = Some (weight (output m))"
    "map_of (state_dict m) ''output.bias'' = Some (bias (output m))"
    using map_of_state_dict_output[of m] by simp_all
  have r: "valid_network m \<and> input_width m = 784 \<and> output_width m = 10 \<longrightarrow>
          load_checkpoint rnd (save m path fs) path = Inr m"
    using load_after_save[of m rnd path fs] by blast
  from d keys e1 e2 e3 e4 length_state_dict[of m] h o r show ?thesis
    by (intro exI[of _ ?d] conjI)
qed

theorem checkpoint_has_four_entries_witness:
  "checkpoint notebook_model =
     PyDict [(''input_size'', PyInt 784), (''output_size'', PyInt 10),
             (''hidden_layers'', PyIntList [512, 256, 128]),
             (''state_dict'', PyStateDict (state_dict notebook_model))] \<and>
   map fst (state_dict notebook_model) =
     [''hidden_layers.0.weight'', ''hidden_layers.0.bias'',
      ''hidden_layers.1.weight'', ''hidden_layers.1.bias'',
      ''hidden_layers.2.weight'', ''hidden_layers.2.bias'',
      ''output.weight'', ''output.bias''] \<and>
   (2::nat) < length (hidden_layers notebook_model) \<and>
   map_of (state_dict notebook_model) ''hidden_layers.2.weight'' =
     Some (weight (hidden_layers notebook_model ! 2)) \<and>
   valid_network notebook_model \<and> input_width notebook_model = 784 \<and>
   output_width notebook_model = 10 \<and>
   load_checkpoint (\<lambda>k p j. 1) (save notebook_model ''checkpoint.pth'' Map.empty)
     ''checkpoint.pth'' = Inr notebook_model"
proof -
  note v = valid_notebook_model(1-3)
  have l: "(2::nat) < length (hidden_layers notebook_model)"
    by (simp add: notebook_model_def)
  from checkpoint_has_four_entries[of notebook_model "\<lambda>k p j. 1" "''checkpoint.pth''" Map.empty]
  obtain d where
    w: "\<forall>j<length (hidden_layers notebook_model).
          map_of (state_dict notebook_model) (''hidden_layers.'' @ str j @ ''.weight'') =
            Some (weight (hidden_layers notebook_model ! j)) \<and>
          map_of (state_dict notebook_model) (''hidden_layers.'' @ str j @ ''.bias'') =
            Some (bias (hidden_layers notebook_model ! j))"
    and r: "valid_network notebook_model \<and> input_width notebook_model = 784 \<and>
          output_width notebook_model = 10 \<longrightarrow>
          load_checkpoint (\<lambda>k p j. 1) (save notebook_model ''checkpoint.pth'' Map.empty)
            ''checkpoint.pth'' = Inr notebook_model"
    by blast
  have w2: "map_of (state_dict notebook_model) ''hidden_layers.2.weight'' =
     Some (weight (hidden_layers notebook_model ! 2))"
    using w[rule_format, OF l, THEN conjunct1] by (simp add: str_2)
  from r v have r2: "load_checkpoint (\<lambda>k p j. 1) (save notebook_model ''checkpoint.pth'' Map.empty)
     ''checkpoint.pth'' = Inr notebook_model"
    by blast
  have c: "checkpoint notebook_model =
     PyDict [(''input_size'', PyInt 784), (''output_size'', PyInt 10),
             (''hidden_layers'', PyIntList [512, 256, 128]),
             (''state_dict'', PyStateDict (state_dict notebook_model))]"
    by (simp add: checkpoint_def notebook_model_def)
  have k: "map fst (state_dict notebook_model) =
     [''hidden_layers.0.weight'', ''hidden_layers.0.bias'',
      ''hidden_layers.1.weight'', ''hidden_layers.1.bias'',
      ''hidden_layers.2.weight'', ''hidden_layers.2.bias'',
      ''output.weight'', ''output.bias'']"
    by (simp add: state_dict_def notebook_model_def linear_state_def str_0 str_Suc_0 str_Suc_Suc_0)
  from c k l w2 v r2 show ?thesis by (intro conjI)
qed

text \<open>
  The claim as stated fails in its last part: the checkpoint of a valid model with 784
  inputs and three classes records the output size 10, and cannot be loaded.
\<close>

theorem checkpoint_has_four_entries_counterexample:
  "valid_network three_class_model \<and>
   input_width three_class_model = 784 \<and>
   output_width three_class_model = 3 \<and>
   subscript (checkpoint three_class_model) ''output_size'' = Inr (PyInt 10) \<and>
   load_checkpoint (\<lambda>k p j. 0) (save three_class_model ''checkpoint.pth'' Map.empty)
     ''checkpoint.pth'' = Inl ArchitectureMismatch"
proof -
  have "valid_network three_class_model"
    by (simp add: valid_defs valid_Linear three_class_model_def)
  moreover have "input_width three_class_model = 784" and "output_width three_class_model = 3"
    by (simp_all add: valid_defs three_class_model_def)
  moreover have "subscript (checkpoint three_class_model) ''output_size'' = Inr (PyInt 10)"
    by (rule subscript_checkpoint)
  moreover have "load_checkpoint (\<lambda>k p j. 0) (save three_class_model ''checkpoint.pth'' Map.empty)
     ''checkpoint.pth'' = Inl ArchitectureMismatch"
    by (simp add: load_defs three_class_model_def)
  ultimately show ?thesis by (intro conjI)
qed

subsection \<open>Self-consistency of saved checkpoints\<close>

text \<open>
  Claim C10, as amended. For every valid model with 784 inputs and 10 classes, the
  checkpoint's \<^verbatim>\<open>hidden_layers\<close> entry is the list of the live layers' output widths,
  the sizes stored in its state dict are, name by name, those of the model constructed
  from \<open>(784, 10, hidden_layers)\<close>, and loading the saved checkpoint succeeds.
\<close>

theorem saved_checkpoint_is_self_consistent:
  assumes "valid_network m" "input_width m = 784" "output_width m = 10"
  shows "subscript (checkpoint m) ''hidden_layers'' =
           Inr (PyIntList (map (\<lambda>each. int (out_features each)) (hidden_layers m))) \<and>
         (\<exists>skeleton.
            Network rnd 784 10 (map (\<lambda>each. int (out_features each)) (hidden_layers m)) =
              Inr skeleton \<and>
            shapes (state_dict skeleton) = shapes (state_dict m)) \<and>
         load_checkpoint rnd (save m path fs) path = Inr m"
proof -
  from Network_of_metadata[OF assms(1), of rnd] assms(2,3)
  have "Network rnd 784 10 (map (\<lambda>each. int (out_features each)) (hidden_layers m)) =
         Inr \<lparr>hidden_layers = make_hidden rnd 0 (input_width m) (map out_features (hidden_layers m)),
              output = Linear (rnd (length (hidden_layers m)))
                         (in_features (output m)) (out_features (output m))\<rparr>"
    by simp
  with shapes_state_dict[OF assms(1), of rnd "rnd (length (hidden_layers m))"]
  have "\<exists>skeleton.
            Network rnd 784 10 (map (\<lambda>each. int (out_features each)) (hidden_layers m)) =
              Inr skeleton \<and>
            shapes (state_dict skeleton) = shapes (state_dict m)"
    by simp
  with subscript_checkpoint(3)[of m] load_after_save[OF assms, of rnd path fs]
  show ?thesis by simp
qed

theorem saved_checkpoint_is_self_consistent_witness:
  "valid_network notebook_model \<and> input_width notebook_model = 784 \<and>
   output_width notebook_model = 10 \<and>
   subscript (checkpoint notebook_model) ''hidden_layers'' = Inr (PyIntList [512, 256, 128]) \<and>
   (\<exists>skeleton.
      Network (\<lambda>k p j. 1) 784 10 [512, 256, 128] = Inr skeleton \<and>
      shapes (state_dict skeleton) = shapes (state_dict notebook_model)) \<and>
   load_checkpoint (\<lambda>k p j. 1) (save notebook_model ''checkpoint.pth'' Map.empty)
     ''checkpoint.pth'' = Inr notebook_model"
proof -
  have hs: "map (\<lambda>each. int (out_features each)) (hidden_layers notebook_model) = [512, 256, 128]"
    by (simp add: notebook_model_def)
  from saved_checkpoint_is_self_consistent[OF valid_notebook_model(1-3),
      of "\<lambda>k p j. 1" "''checkpoint.pth''" Map.empty]
    valid_notebook_model(1-3)
  show ?thesis unfolding hs by (intro conjI) simp_all
qed

text \<open>
  The claim as stated, for every checkpoint that saving produces, fails: for a valid model
  with two inputs the stored sizes differ from those the recorded architecture implies,
  and loading raises \<open>ArchitectureMismatch\<close>.
\<close>

theorem saved_checkpoint_is_self_consistent_counterexample:
  "valid_network two_input_model \<and>
   shapes (state_dict two_input_model) =
     [(''hidden_layers.0.weight'', [3, 2]), (''hidden_layers.0.bias'', [3]),
      (''output.weight'', [10, 3]), (''output.bias'', [10])] \<and>
   subscript (checkpoint two_input_model) ''input_size'' = Inr (PyInt 784) \<and>
   subscript (checkpoint two_input_model) ''output_size'' = Inr (PyInt 10) \<and>
   subscript (checkpoint two_input_model) ''hidden_layers'' = Inr (PyIntList [3]) \<and>
   (case Network (\<lambda>k p j. 0) 784 10 [3] of
      Inl e \<Rightarrow> []
    | Inr skeleton \<Rightarrow> shapes (state_dict skeleton)) =
     [(''hidden_layers.0.weight'', [3, 784]), (''hidden_layers.0.bias'', [3]),
      (''output.weight'', [10, 3]), (''output.bias'', [10])] \<and>
   load_checkpoint (\<lambda>k p j. 0) (save two_input_model ''checkpoint.pth'' Map.empty)
     ''checkpoint.pth'' = Inl ArchitectureMismatch"
proof -
  have "valid_network two_input_model"
    by (simp add: valid_defs valid_Linear two_input_model_def)
  moreover have "shapes (state_dict two_input_model) =
     [(''hidden_layers.0.weight'', [3, 2]), (''hidden_layers.0.bias'', [3]),
      (''output.weight'', [10, 3]), (''output.bias'', [10])]"
    by (simp add: shapes_def state_dict_def linear_state_def str_0 two_input_model_def)
  moreover have "subscript (checkpoint two_input_model) ''input_size'' = Inr (PyInt 784)"
    and "subscript (checkpoint two_input_model) ''output_size'' = Inr (PyInt 10)"
    by (rule subscript_checkpoint)+
  moreover have "subscript (checkpoint two_input_model) ''hidden_layers'' = Inr (PyIntList [3])"
    by (simp add: checkpoint_def two_input_model_def)
  moreover have "(case Network (\<lambda>k p j. 0) 784 10 [3] of
      Inl e \<Rightarrow> []
    | Inr skeleton \<Rightarrow> shapes (state_dict skeleton)) =
     [(''hidden_layers.0.weight'', [3, 784]), (''hidden_layers.0.bias'', [3]),
      (''output.weight'', [10, 3]), (''output.bias'', [10])]"
    by (simp add: Network_def shapes_def state_dict_def linear_state_def str_0)
  moreover have "load_checkpoint (\<lambda>k p j. 0) (save two_input_model ''checkpoint.pth'' Map.empty)
     ''checkpoint.pth'' = Inl ArchitectureMismatch"
    by (simp add: load_defs two_input_model_def)
  ultimately show ?thesis by (intro conjI)
qed

section \<open>Properties of the training loop\<close>

subsection \<open>Auxiliary facts\<close>

lemma epoch_loop_sum:
  "epoch_loop lr lossf gradf ps r bs =
     (case batch_losses lr lossf gradf ps bs of
        Inl e \<Rightarrow> Inl e
      | Inr (ps', ls) \<Rightarrow> Inr (ps', r + sum_list ls))"
  by (induction bs arbitrary: ps r) (auto split: sum.splits prod.splits)

lemma batch_losses_length:
  "batch_losses lr lossf gradf ps bs = Inr (ps', ls) \<Longrightarrow> length ls = length bs"
  by (induction bs arbitrary: ps ps' ls) (auto split: sum.splits prod.splits)

lemma train_epochs_snoc:
  "train_epochs lr lossf gradf trainloader ps printed (es @ [e]) =
     (case train_epochs lr lossf gradf trainloader ps printed es of
        Inl err \<Rightarrow> Inl err
      | Inr (ps1, pr1) \<Rightarrow>
          (case train_epoch lr lossf gradf ps1 (trainloader e) of
             Inl err \<Rightarrow> Inl err
           | Inr (ps2, avg) \<Rightarrow> Inr (ps2, pr1 @ [avg])))"
  by (induction es arbitrary: ps printed) (auto split: sum.splits prod.splits)

lemma train_Suc:
  "train lr lossf gradf trainloader (Suc E) ps =
     (case train lr lossf gradf trainloader E ps of
        Inl err \<Rightarrow> Inl err
      | Inr (ps1, pr1) \<Rightarrow>
          (case train_epoch lr lossf gradf ps1 (trainloader E) of
             Inl err \<Rightarrow> Inl err
           | Inr (ps2, avg) \<Rightarrow> Inr (ps2, pr1 @ [avg])))"
  by (simp add: train_def train_epochs_snoc)

lemma train_printed:
  "train lr lossf gradf trainloader E ps = Inr (ps', printed) \<Longrightarrow>
     ps' = epoch_start lr lossf gradf trainloader ps E \<and> length printed = E \<and>
     (\<forall>e<E. \<exists>ps_next. train_epoch lr lossf gradf (epoch_start lr lossf gradf trainloader ps e) (trainloader e) =
              Inr (ps_next, printed ! e))"
proof (induction E arbitrary: ps' printed)
  case 0
  then show ?case by (simp add: train_def)
next
  case (Suc E)
  from Suc.prems obtain ps1 pr1 avg where
    t: "train lr lossf gradf trainloader E ps = Inr (ps1, pr1)" and
    e: "train_epoch lr lossf gradf ps1 (trainloader E) = Inr (ps', avg)" and
    p: "printed = pr1 @ [avg]"
    by (auto simp: train_Suc split: sum.splits prod.splits)
  from Suc.IH[OF t] have ih:
    "ps1 = epoch_start lr lossf gradf trainloader ps E" "length pr1 = E"
    "\<forall>e<E. \<exists>ps_next. train_epoch lr lossf gradf (epoch_start lr lossf gradf trainloader ps e) (trainloader e) =
              Inr (ps_next, pr1 ! e)"
    by blast+
  have st: "epoch_start lr lossf gradf trainloader ps (Suc E) = ps'"
    using e ih(1) by simp
  have "\<exists>ps_next. train_epoch lr lossf gradf (epoch_start lr lossf gradf trainloader ps j) (trainloader j) =
          Inr (ps_next, printed ! j)" if "j < Suc E" for j
  proof (cases "j < E")
    case True
    then show ?thesis using ih(2,3) p by (simp add: nth_append)
  next
    case False
    with that have "j = E" by simp
    then show ?thesis using e ih(1,2) p by (simp add: nth_append)
  qed
  then show ?case using st ih(2) p by simp
qed

lemma map2_add_zero: "length (zs::real list) = length (gs::real list) \<Longrightarrow> map2 (+) (map (\<lambda>_. 0) zs) gs = gs"
  by (induction zs gs rule: list_induct2) auto

lemma accumulate_zeroed:
  "like a g \<Longrightarrow> accumulate (Some (zero_tensor a)) g = g"
  by (simp add: accumulate_def zero_tensor_def like_def map2_add_zero)

lemma pvalue_zero_grad: "map pvalue (zero_grad ps) = map pvalue ps"
  by (induction ps) (auto simp: zero_grad_def split: option.splits)

lemma before_step_grads:
  "wf_params ps \<Longrightarrow> list_all2 like gs (map pvalue ps) \<Longrightarrow>
   map grad (backward gs (zero_grad ps)) = map Some gs"
proof (induction ps arbitrary: gs)
  case Nil
  then show ?case by (simp add: backward_def zero_grad_def)
next
  case (Cons p ps)
  then obtain g gs' where gs: "gs = g # gs'" by (cases gs) auto
  with Cons.prems have lg: "like g (pvalue p)" and rest: "list_all2 like gs' (map pvalue ps)"
    and wfp: "wf_params ps" by (auto simp: wf_params_def)
  have ih: "map grad (backward gs' (zero_grad ps)) = map Some gs'"
    using Cons.IH[OF wfp rest] .
  have hd: "accumulate (grad (case grad p of None \<Rightarrow> p | Some g' \<Rightarrow> p\<lparr>grad := Some (zero_tensor g')\<rparr>)) g = g"
  proof (cases "grad p")
    case None
    then show ?thesis by (simp add: accumulate_def)
  next
    case (Some a)
    with Cons.prems(1) have "like a (pvalue p)" by (simp add: wf_params_def)
    with lg have "like a g" by (simp add: like_def)
    with Some show ?thesis by (simp add: accumulate_zeroed)
  qed
  show ?case using ih hd unfolding gs by (simp add: backward_def zero_grad_def)
qed

lemma pvalue_backward:
  "length gs = length ps \<Longrightarrow> map pvalue (backward gs ps) = map pvalue ps"
  by (induction gs ps rule: list_induct2) (auto simp: backward_def)

lemma length_zero_grad: "length (zero_grad ps) = length ps"
  by (simp add: zero_grad_def)

lemma grad_sgd_step: "map grad (sgd_step lr ps) = map grad ps"
  by (induction ps) (auto simp: sgd_step_def split: option.splits)

lemma length_sgd_step: "length (sgd_step lr ps) = length ps"
  by (simp add: sgd_step_def)

lemmas toy_defs = toy_loss_def toy_grad_def toy_params_def train_batch_def before_step_def
  zero_grad_def backward_def sgd_step_def sgd_update_def accumulate_def zero_tensor_def

lemma toy_epoch1: "batch_losses (1/2) toy_loss toy_grad toy_params [1, 3] =
   Inr ([\<lparr>pvalue = \<lparr>shape = [1], data = [3]\<rparr>, grad = Some \<lparr>shape = [1], data = [-4]\<rparr>\<rparr>], [1, 4])"
  by (simp add: toy_defs)

lemma toy_train: "train (1/2) toy_loss toy_grad (\<lambda>e. [1, 3]) 2 toy_params =
   Inr ([\<lparr>pvalue = \<lparr>shape = [1], data = [3]\<rparr>, grad = Some \<lparr>shape = [1], data = [-4]\<rparr>\<rparr>], [5/2, 4])"
proof -
  have "[0..<2] = [0, Suc 0]" by (simp add: upt_conv_Cons)
  then show ?thesis
    by (simp add: toy_defs train_def train_epoch_def)
qed

subsection \<open>The reported average loss\<close>

text \<open>
  Claim C4. In every epoch the running loss starts at 0, every batch adds its scalar loss
  to it, and the value printed for the epoch is the accumulator divided by the number of
  batches of the loader. First for one epoch from any parameters: the epoch fails where a
  batch fails, raises \<^verbatim>\<open>ZeroDivisionError\<close> on an empty loader, and otherwise
  reports \<open>(0 + l\<^sub>1 + \<dots> + l\<^sub>n) / n\<close>, with one loss per batch. Then for the whole
  run: the \<open>e\<close>-th printed value is that quotient for the batches of epoch \<open>e\<close>, started
  from the parameters the run holds at the beginning of that epoch.
\<close>

theorem running_loss_average:
  "train_epoch lr lossf gradf ps bs =
     (case batch_losses lr lossf gradf ps bs of
        Inl err \<Rightarrow> Inl err
      | Inr (ps', ls) \<Rightarrow>
          if bs = [] then Inl ZeroDivisionError
          else Inr (ps', (0 + sum_list ls) / real (length bs)))
   \<and> (\<forall>ps' ls. batch_losses lr lossf gradf ps bs = Inr (ps', ls) \<longrightarrow> length ls = length bs)
   \<and> (\<forall>ps' printed e.
         train lr lossf gradf trainloader epochs ps = Inr (ps', printed) \<and> e < epochs \<longrightarrow>
         length printed = epochs \<and>
         (\<exists>ps_e ls.
            batch_losses lr lossf gradf
              (epoch_start lr lossf gradf trainloader ps e) (trainloader e) = Inr (ps_e, ls) \<and>
            length ls = length (trainloader e) \<and>
            printed ! e = (0 + sum_list ls) / real (length (trainloader e))))"
proof (intro conjI allI impI)
  show eq: "train_epoch lr lossf gradf ps bs =
     (case batch_losses lr lossf gradf ps bs of
        Inl err \<Rightarrow> Inl err
      | Inr (ps', ls) \<Rightarrow>
          if bs = [] then Inl ZeroDivisionError
          else Inr (ps', (0 + sum_list ls) / real (length bs)))" for ps bs
    by (simp add: train_epoch_def epoch_loop_sum split: sum.splits prod.splits)
  show "length ls = length bs" if "batch_losses lr lossf gradf ps bs = Inr (ps', ls)" for ps' ls
    using that by (rule batch_losses_length)
  fix ps' printed e
  assume a: "train lr lossf gradf trainloader epochs ps = Inr (ps', printed) \<and> e < epochs"
  from train_printed[of lr lossf gradf trainloader epochs ps ps' printed] a
  have len: "length printed = epochs"
    and ex: "\<exists>ps_next. train_epoch lr lossf gradf
               (epoch_start lr lossf gradf trainloader ps e) (trainloader e) =
               Inr (ps_next, printed ! e)"
    by blast+
  show "length printed = epochs" by (rule len)
  from ex obtain ps_next where
    te: "train_epoch lr lossf gradf (epoch_start lr lossf gradf trainloader ps e) (trainloader e) =
           Inr (ps_next, printed ! e)" ..
  then obtain ps_e ls where
    bl: "batch_losses lr lossf gradf (epoch_start lr lossf gradf trainloader ps e) (trainloader e) =
           Inr (ps_e, ls)"
    and avg: "printed ! e = (0 + sum_list ls) / real (length (trainloader e))"
    unfolding eq by (auto split: sum.splits prod.splits if_splits)
  from bl have "length ls = length (trainloader e)" by (rule batch_losses_length)
  with bl avg show "\<exists>ps_e ls.
            batch_losses lr lossf gradf
              (epoch_start lr lossf gradf trainloader ps e) (trainloader e) = Inr (ps_e, ls) \<and>
            length ls = length (trainloader e) \<and>
            printed ! e = (0 + sum_list ls) / real (length (trainloader e))"
    by blast
qed

theorem running_loss_average_witness:
  "train_epoch (1/2) toy_loss toy_grad toy_params [1, 3] =
     Inr ([\<lparr>pvalue = \<lparr>shape = [1], data = [3]\<rparr>, grad = Some \<lparr>shape = [1], data = [-4]\<rparr>\<rparr>],
          (0 + sum_list [1, 4]) / real (length [1::real, 3]))
   \<and> length [1::real, 4] = length [1::real, 3]
   \<and> train (1/2) toy_loss toy_grad (\<lambda>e. [1, 3]) 2 toy_params =
     Inr ([\<lparr>pvalue = \<lparr>shape = [1], data = [3]\<rparr>, grad = Some \<lparr>shape = [1], data = [-4]\<rparr>\<rparr>], [5/2, 4])
   \<and> (1::nat) < 2
   \<and> (\<exists>ps_e ls.
          batch_losses (1/2) toy_loss toy_grad
            (epoch_start (1/2) toy_loss toy_grad (\<lambda>e. [1, 3]) toy_params 1) [1, 3] = Inr (ps_e, ls) \<and>
          length ls = length [1::real, 3] \<and>
          [5/2, 4] ! 1 = (0 + sum_list ls) / real (length [1::real, 3]))"
proof -
  note th = running_loss_average[of "1/2" toy_loss toy_grad toy_params "[1, 3]" "\<lambda>e. [1, 3]" 2]
  have e3: "length [1::real, 4] = length [1::real, 3]" and e4: "(1::nat) < 2" by simp_all
  from th have e1: "train_epoch (1/2) toy_loss toy_grad toy_params [1, 3] =
     Inr ([\<lparr>pvalue = \<lparr>shape = [1], data = [3]\<rparr>, grad = Some \<lparr>shape = [1], data = [-4]\<rparr>\<rparr>],
          (0 + sum_list [1, 4]) / real (length [1::real, 3]))"
    by (simp add: toy_epoch1 del: batch_losses.simps)
  from th have "train (1/2) toy_loss toy_grad (\<lambda>e. [1, 3]) 2 toy_params =
       Inr ([\<lparr>pvalue = \<lparr>shape = [1], data = [3]\<rparr>, grad = Some \<lparr>shape = [1], data = [-4]\<rparr>\<rparr>], [5/2, 4])
       \<and> (1::nat) < 2 \<longrightarrow>
     (\<exists>ps_e ls.
          batch_losses (1/2) toy_loss toy_grad
            (epoch_start (1/2) toy_loss toy_grad (\<lambda>e. [1, 3]) toy_params 1) [1, 3] = Inr (ps_e, ls) \<and>
          length ls = length [1::real, 3] \<and>
          [5/2, 4] ! 1 = (0 + sum_list ls) / real (length [1::real, 3]))"
    by blast
  with toy_train have e2: "\<exists>ps_e ls.
          batch_losses (1/2) toy_loss toy_grad
            (epoch_start (1/2) toy_loss toy_grad (\<lambda>e. [1, 3]) toy_params 1) [1, 3] = Inr (ps_e, ls) \<and>
          length ls = length [1::real, 3] \<and>
          [5/2, 4] ! 1 = (0 + sum_list ls) / real (length [1::real, 3])"
    using e4 by blast
  from e1 e3 toy_train e4 e2 show ?thesis by (intro conjI)
qed

subsection \<open>The optimizer step\<close>

text \<open>
  Claim C5. A step of stochastic gradient descent replaces every element of every
  parameter by itself minus the learning rate times the matching element of that
  parameter's gradient; the gradients, the sizes and the number of parameters are left as
  they are, and a parameter that has no gradient is not touched.
\<close>

theorem sgd_step_updates:
  "length (sgd_step lr ps) = length ps \<and>
   (\<forall>i<length ps.
      grad (sgd_step lr ps ! i) = grad (ps ! i) \<and>
      shape (pvalue (sgd_step lr ps ! i)) = shape (pvalue (ps ! i)) \<and>
      (case grad (ps ! i) of
         None \<Rightarrow> pvalue (sgd_step lr ps ! i) = pvalue (ps ! i)
       | Some g \<Rightarrow>
           length (data g) = length (data (pvalue (ps ! i))) \<longrightarrow>
           length (data (pvalue (sgd_step lr ps ! i))) = length (data (pvalue (ps ! i))) \<and>
           (\<forall>j<length (data (pvalue (ps ! i))).
              data (pvalue (sgd_step lr ps ! i)) ! j =
                data (pvalue (ps ! i)) ! j - lr * data g ! j)))"
proof -
  have len: "length (sgd_step lr ps) = length ps"
    by (simp add: sgd_step_def)
  have each: "sgd_step lr ps ! i =
      (case grad (ps ! i) of
         None \<Rightarrow> ps ! i
       | Some g \<Rightarrow> (ps ! i)\<lparr>pvalue := sgd_update lr (pvalue (ps ! i)) g\<rparr>)"
    if "i < length ps" for i
    using that by (simp add: sgd_step_def)
  have "grad (sgd_step lr ps ! i) = grad (ps ! i) \<and>
      shape (pvalue (sgd_step lr ps ! i)) = shape (pvalue (ps ! i)) \<and>
      (case grad (ps ! i) of
         None \<Rightarrow> pvalue (sgd_step lr ps ! i) = pvalue (ps ! i)
       | Some g \<Rightarrow>
           length (data g) = length (data (pvalue (ps ! i))) \<longrightarrow>
           length (data (pvalue (sgd_step lr ps ! i))) = length (data (pvalue (ps ! i))) \<and>
           (\<forall>j<length (data (pvalue (ps ! i))).
              data (pvalue (sgd_step lr ps ! i)) ! j =
                data (pvalue (ps ! i)) ! j - lr * data g ! j))"
    if "i < length ps" for i
  proof (cases "grad (ps ! i)")
    case None
    with each[OF that] show ?thesis by simp
  next
    case (Some g)
    with each[OF that] show ?thesis by (simp add: sgd_update_def)
  qed
  with len show ?thesis by blast
qed

theorem sgd_step_updates_witness:
  "length (sgd_step (1/2) [\<lparr>pvalue = \<lparr>shape = [2], data = [1, 2]\<rparr>, grad = Some \<lparr>shape = [2], data = [4, 6]\<rparr>\<rparr>]) = 1 \<and>
   sgd_step (1/2) [\<lparr>pvalue = \<lparr>shape = [2], data = [1, 2]\<rparr>, grad = Some \<lparr>shape = [2], data = [4, 6]\<rparr>\<rparr>] ! 0 =
     \<lparr>pvalue = \<lparr>shape = [2], data = [1 - 1/2 * 4, 2 - 1/2 * 6]\<rparr>, grad = Some \<lparr>shape = [2], data = [4, 6]\<rparr>\<rparr>"
  using sgd_step_updates[of "1/2" "[\<lparr>pvalue = \<lparr>shape = [2], data = [1, 2]\<rparr>, grad = Some \<lparr>shape = [2], data = [4, 6]\<rparr>\<rparr>]"]
  by (simp add: sgd_step_def sgd_update_def)

subsection \<open>Gradients are cleared before each backward pass\<close>

text \<open>
  Claim C6. An iteration of the loop zeroes the gradients before the backward pass, so
  whatever gradients the parameters carried from earlier iterations, the gradient the
  optimizer step consumes is exactly the gradient of the current batch's loss: the
  buffers before the step hold it, the values are still the old ones, the step subtracts
  the learning rate times it, and the parameters stay well-formed, so the same holds for
  the next iteration.
\<close>

theorem step_uses_current_gradient_only:
  assumes "wf_params ps"
    and "list_all2 like (gradf (map pvalue ps) b) (map pvalue ps)"
    and "lossf (map pvalue ps) b = Inr loss"
  shows "map grad (before_step gradf ps b) = map Some (gradf (map pvalue ps) b) \<and>
         map pvalue (before_step gradf ps b) = map pvalue ps \<and>
         train_batch lr lossf gradf ps b = Inr (sgd_step lr (before_step gradf ps b), loss) \<and>
         map pvalue (sgd_step lr (before_step gradf ps b)) =
           map2 (sgd_update lr) (map pvalue ps) (gradf (map pvalue ps) b) \<and>
         wf_params (sgd_step lr (before_step gradf ps b))"
proof -
  let ?gs = "gradf (map pvalue ps) b"
  let ?qs = "before_step gradf ps b"
  have q: "?qs = backward ?gs (zero_grad ps)"
    by (simp add: before_step_def pvalue_zero_grad)
  have len: "length ?gs = length ps"
    using assms(2) by (auto dest: list_all2_lengthD)
  have g: "map grad ?qs = map Some ?gs"
    unfolding q using assms(1,2) by (rule before_step_grads)
  have v: "map pvalue ?qs = map pvalue ps"
    unfolding q using len by (simp add: pvalue_backward length_zero_grad pvalue_zero_grad)
  have t: "train_batch lr lossf gradf ps b = Inr (sgd_step lr ?qs, loss)"
    using assms(3) by (simp add: train_batch_def pvalue_zero_grad)
  have lq: "length ?qs = length ps"
    using v by (metis length_map)
  have u: "map pvalue (sgd_step lr ?qs) = map2 (sgd_update lr) (map pvalue ps) ?gs"
  proof (rule nth_equalityI)
    show "length (map pvalue (sgd_step lr ?qs)) = length (map2 (sgd_update lr) (map pvalue ps) ?gs)"
      using lq len by (simp add: length_sgd_step)
  next
    fix i assume "i < length (map pvalue (sgd_step lr ?qs))"
    then have i: "i < length ps" using lq by (simp add: length_sgd_step)
    have gi: "grad (?qs ! i) = Some (?gs ! i)"
      using g i lq len by (metis length_map nth_map)
    have vi: "pvalue (?qs ! i) = pvalue (ps ! i)"
      using v i lq by (metis length_map nth_map)
    show "map pvalue (sgd_step lr ?qs) ! i = map2 (sgd_update lr) (map pvalue ps) ?gs ! i"
      using i lq len gi vi by (simp add: sgd_step_def)
  qed
  have w: "wf_params (sgd_step lr ?qs)"
    unfolding wf_params_def list_all_length
  proof (intro allI impI)
    fix i assume "i < length (sgd_step lr ?qs)"
    then have i: "i < length ps" using lq by (simp add: length_sgd_step)
    have gi: "grad (?qs ! i) = Some (?gs ! i)"
      using g i lq len by (metis length_map nth_map)
    have vi: "pvalue (?qs ! i) = pvalue (ps ! i)"
      using v i lq by (metis length_map nth_map)
    have lk: "like (?gs ! i) (pvalue (ps ! i))"
      using assms(2) i by (auto simp: list_all2_conv_all_nth)
    show "case grad (sgd_step lr ?qs ! i) of None \<Rightarrow> True
          | Some g \<Rightarrow> like g (pvalue (sgd_step lr ?qs ! i))"
      using i lq gi vi lk by (simp add: sgd_step_def sgd_update_def like_def)
  qed
  from g v t u w show ?thesis by blast
qed

theorem step_uses_current_gradient_only_witness:
  "wf_params [\<lparr>pvalue = \<lparr>shape = [1], data = [1]\<rparr>, grad = Some \<lparr>shape = [1], data = [100]\<rparr>\<rparr>] \<and>
   list_all2 like
     (toy_grad (map pvalue [\<lparr>pvalue = \<lparr>shape = [1], data = [1]\<rparr>,
                             grad = Some \<lparr>shape = [1], data = [100]\<rparr>\<rparr>]) 3)
     (map pvalue [\<lparr>pvalue = \<lparr>shape = [1], data = [1]\<rparr>,
                   grad = Some \<lparr>shape = [1], data = [100]\<rparr>\<rparr>]) \<and>
   toy_loss (map pvalue [\<lparr>pvalue = \<lparr>shape = [1], data = [1]\<rparr>,
                          grad = Some \<lparr>shape = [1], data = [100]\<rparr>\<rparr>]) 3 = Inr 4 \<and>
   map grad (before_step toy_grad
     [\<lparr>pvalue = \<lparr>shape = [1], data = [1]\<rparr>, grad = Some \<lparr>shape = [1], data = [100]\<rparr>\<rparr>] 3) =
     [Some \<lparr>shape = [1], data = [- 4]\<rparr>] \<and>
   train_batch (1/2) toy_loss toy_grad
     [\<lparr>pvalue = \<lparr>shape = [1], data = [1]\<rparr>, grad = Some \<lparr>shape = [1], data = [100]\<rparr>\<rparr>] 3 =
     Inr ([\<lparr>pvalue = \<lparr>shape = [1], data = [3]\<rparr>, grad = Some \<lparr>shape = [1], data = [- 4]\<rparr>\<rparr>], 4)"
proof -
  let ?ps = "[\<lparr>pvalue = \<lparr>shape = [1], data = [1]\<rparr>, grad = Some \<lparr>shape = [1], data = [100]\<rparr>\<rparr>]"
  have h1: "wf_params ?ps"
    by (simp add: wf_params_def like_def)
  have h2: "list_all2 like (toy_grad (map pvalue ?ps) 3) (map pvalue ?ps)"
    by (simp add: toy_grad_def like_def)
  have h3: "toy_loss (map pvalue ?ps) 3 = Inr 4"
    by (simp add: toy_loss_def)
  from step_uses_current_gradient_only[where ps = "?ps" and gradf = toy_grad and b = 3
      and lossf = toy_loss and loss = 4 and lr = "1/2", OF h1 h2 h3] h1 h2 h3
  show ?thesis
    by (simp add: toy_defs)
qed

end
